theory Spec2Isabelle
  imports Main
begin

section \<open>Values of the configuration module\<close>

text \<open>
  The module under study is \<^verbatim>\<open>lza-upgrade/src/config/global-config.ts\<close>. Its
  companion \<^verbatim>\<open>common-types.ts\<close> (the validators \<^verbatim>\<open>t.parse\<close>, \<^verbatim>\<open>t.region\<close>,
  the types \<^verbatim>\<open>t.DeploymentTargets\<close>, \<^verbatim>\<open>t.LifeCycleRule\<close>, \<^verbatim>\<open>t.Tag\<close>,
  \<^verbatim>\<open>t.CfnResourceType\<close>, the enum \<^verbatim>\<open>t.AseaResourceTypePaths\<close>) and
  \<^verbatim>\<open>common/aws/backoff.ts\<close> are not part of the sources at hand. Values of those
  types, and every section whose content the loader never looks into, are carried as
  untyped JSON trees.
\<close>

datatype json =
    JNull
  | JBool bool
  | JNum int
  | JStr string
  | JArr "json list"
  | JObj "(string \<times> json) list"

text \<open>
  An optional key of a parsed object: the key is missing, it is an own property holding
  \<^verbatim>\<open>undefined\<close>, or it holds a value. \<^verbatim>\<open>Object.assign\<close> copies own properties
  only, so the first two differ for the constructor.
\<close>

datatype 'a property = Absent | Undefined | Defined 'a

text \<open>A thrown JavaScript error object: its \<^verbatim>\<open>name\<close>, its \<^verbatim>\<open>code\<close> (AWS errors) and its \<^verbatim>\<open>message\<close>.\<close>

datatype error = JsError (err_name: string) (err_code: "string option") (err_message: string)

definition Error :: "string \<Rightarrow> error" where
  "Error msg = JsError ''Error'' None msg"

definition TypeError :: "string \<Rightarrow> error" where
  "TypeError msg = JsError ''TypeError'' None msg"

text \<open>\<^verbatim>\<open>`${e}`\<close> on an error object: \<^verbatim>\<open>Error.prototype.toString\<close>.\<close>

definition error_toString :: "error \<Rightarrow> string" where
  "error_toString e =
     (if err_name e = [] then err_message e
      else if err_message e = [] then err_name e
      else err_name e @ '': '' @ err_message e)"

text \<open>A JavaScript number as far as the module computes one: an integer or \<^verbatim>\<open>NaN\<close>.\<close>

datatype number = Num int | NaN

section \<open>Configuration sections and their class defaults\<close>

record ControlTowerConfig =
  enable :: bool
  controls :: "json list option"

definition ControlTowerConfig_new :: ControlTowerConfig where
  "ControlTowerConfig_new = \<lparr>ControlTowerConfig.enable = True, controls = Some []\<rparr>"

record cdkOptionsConfig =
  centralizeBuckets :: bool
  useManagementAccessRole :: bool
  customDeploymentRole :: "string option"
  forceBootstrap :: "bool option"

definition cdkOptionsConfig_new :: cdkOptionsConfig where
  "cdkOptionsConfig_new =
     \<lparr>centralizeBuckets = True, useManagementAccessRole = True,
      customDeploymentRole = None, forceBootstrap = None\<rparr>"

record CloudTrailSettingsConfig =
  multiRegionTrail :: bool
  globalServiceEvents :: bool
  managementEvents :: bool
  s3DataEvents :: bool
  lambdaDataEvents :: bool
  sendToCloudWatchLogs :: bool
  apiErrorRateInsight :: bool
  apiCallRateInsight :: bool

definition CloudTrailSettingsConfig_new :: CloudTrailSettingsConfig where
  "CloudTrailSettingsConfig_new =
     \<lparr>multiRegionTrail = True, globalServiceEvents = True, managementEvents = True,
      s3DataEvents = True, lambdaDataEvents = True,
      CloudTrailSettingsConfig.sendToCloudWatchLogs = True,
      apiErrorRateInsight = False, apiCallRateInsight = False\<rparr>"

record CloudTrailConfig =
  enable :: bool
  organizationTrail :: bool
  organizationTrailSettings :: "CloudTrailSettingsConfig option"
  accountTrails :: "json list option"
  lifecycleRules :: "json list option"

definition CloudTrailConfig_new :: CloudTrailConfig where
  "CloudTrailConfig_new =
     \<lparr>CloudTrailConfig.enable = False, organizationTrail = False,
      organizationTrailSettings = Some CloudTrailSettingsConfig_new,
      accountTrails = Some [], CloudTrailConfig.lifecycleRules = Some []\<rparr>"

record SessionManagerConfig =
  sendToCloudWatchLogs :: bool
  sendToS3 :: bool
  excludeRegions :: "string list option"
  excludeAccounts :: "string list option"
  lifecycleRules :: "json list option"
  attachPolicyToIamRoles :: "string list option"

definition SessionManagerConfig_new :: SessionManagerConfig where
  "SessionManagerConfig_new =
     \<lparr>SessionManagerConfig.sendToCloudWatchLogs = False, sendToS3 = False,
      excludeRegions = Some [], excludeAccounts = Some [],
      SessionManagerConfig.lifecycleRules = Some [], attachPolicyToIamRoles = Some []\<rparr>"

record LoggingConfig =
  account :: string
  centralizedLoggingRegion :: "string option"
  cloudtrail :: CloudTrailConfig
  sessionManager :: SessionManagerConfig
  accessLogBucket :: "json option"
  centralLogBucket :: "json option"
  elbLogBucket :: "json option"
  cloudwatchLogs :: "json option"

definition LoggingConfig_new :: LoggingConfig where
  "LoggingConfig_new =
     \<lparr>account = ''LogArchive'', centralizedLoggingRegion = None,
      cloudtrail = CloudTrailConfig_new, sessionManager = SessionManagerConfig_new,
      accessLogBucket = None, centralLogBucket = None, elbLogBucket = None,
      cloudwatchLogs = None\<rparr>"

subsection \<open>The external landing zone section and the manifest it is filled from\<close>

text \<open>
  The manifest \<^verbatim>\<open>mapping.json\<close>: one entry per account, each with its stacks. Of a
  stack's \<^verbatim>\<open>resourceMap\<close> entries the code reads \<^verbatim>\<open>resourceType\<close> and
  \<^verbatim>\<open>physicalResourceId\<close>; whatever else an entry holds is kept as it is.
\<close>

record CfnResourceType =
  resourceType :: string
  physicalResourceId :: string
  resourceMetadata :: json

record StackAndResourceMap =
  stackName :: string
  region :: string
  template :: json
  resourceMap :: "CfnResourceType list"
  parentStack :: "string option"

record AccountMapping =
  accountId :: string
  accountKey :: string
  stacksAndResourceMapList :: "StackAndResourceMap list"

record AseaStackInfo =
  accountId :: string
  accountKey :: string
  region :: string
  stackName :: string
  resources :: "CfnResourceType list"
  templatePath :: string
  phase :: number
  nestedStack :: bool

text \<open>
  The class declares four schema fields and four fields the reconciler fills. A parsed
  section is a plain object with the schema fields only, so on a loaded configuration
  the other four are \<^verbatim>\<open>undefined\<close> until the reconciler assigns them.
\<close>

record externalLandingZoneResourcesConfig =
  importExternalLandingZoneResources :: bool
  mappingFileBucket :: "string option"
  acceleratorPrefix :: string
  acceleratorName :: string
  templateMap :: "AseaStackInfo list option"
  resourceList :: "json list option"
  accountsDeployedExternally :: "string list option"
  resourceParameters :: "(string \<rightharpoonup> (string \<rightharpoonup> string)) option"

definition externalLandingZoneResourcesConfig_new :: externalLandingZoneResourcesConfig where
  "externalLandingZoneResourcesConfig_new =
     \<lparr>importExternalLandingZoneResources = False, mappingFileBucket = Some '''',
      acceleratorPrefix = ''ASEA'', acceleratorName = ''ASEA'',
      templateMap = Some [], resourceList = Some [],
      accountsDeployedExternally = Some [], resourceParameters = Some Map.empty\<rparr>"

section \<open>The root document and the root class\<close>

text \<open>
  \<^verbatim>\<open>t.TypeOf<typeof GlobalConfigTypes.globalConfig>\<close>: what \<^verbatim>\<open>t.parse\<close> returns for
  the root schema. Six keys are required; the keys wrapped in \<^verbatim>\<open>t.optional\<close> are
  optional properties.
\<close>

record globalConfigType =
  homeRegion :: string
  enabledRegions :: "string list"
  managementAccountAccessRole :: string
  cloudwatchLogRetentionInDays :: int
  terminationProtection :: "bool property"
  controlTower :: ControlTowerConfig
  centralizeCdkBuckets :: "json property"
  cdkOptions :: "cdkOptionsConfig property"
  externalLandingZoneResources :: "externalLandingZoneResourcesConfig property"
  logging :: LoggingConfig
  reports :: "json property"
  backup :: "json property"
  snsTopics :: "json property"
  ssmInventory :: "json property"
  tags :: "json list property"
  ssmParameters :: "json list property"
  limits :: "json list property"
  acceleratorMetadata :: "json property"
  acceleratorSettings :: "json property"

text \<open>
  An instance of the class \<^verbatim>\<open>GlobalConfig\<close>. A field reads \<^verbatim>\<open>undefined\<close>
  (\<open>None\<close>) when its initialiser says so or when \<^verbatim>\<open>Object.assign\<close> has copied an
  \<^verbatim>\<open>undefined\<close> over it.
\<close>

record GlobalConfig =
  homeRegion :: string
  enabledRegions :: "string list"
  managementAccountAccessRole :: string
  cloudwatchLogRetentionInDays :: int
  centralizeCdkBuckets :: "json option"
  cdkOptions :: "cdkOptionsConfig option"
  terminationProtection :: "bool option"
  externalLandingZoneResources :: "externalLandingZoneResourcesConfig option"
  controlTower :: ControlTowerConfig
  logging :: LoggingConfig
  reports :: "json option"
  limits :: "json list option"
  ssmParameters :: "json list option"
  backup :: "json option"
  snsTopics :: "json option"
  ssmInventory :: "json option"
  tags :: "json list option"
  acceleratorMetadata :: "json option"
  acceleratorSettings :: "json option"

definition FILENAME :: string where
  "FILENAME = ''global-config.yaml''"

text \<open>The field initialisers of the class, run before the constructor body.\<close>

definition GlobalConfig_fields :: GlobalConfig where
  "GlobalConfig_fields =
     \<lparr>homeRegion = '''',
      enabledRegions = [],
      managementAccountAccessRole = '''',
      cloudwatchLogRetentionInDays = 3653,
      centralizeCdkBuckets = None,
      cdkOptions = Some cdkOptionsConfig_new,
      terminationProtection = Some True,
      externalLandingZoneResources = None,
      controlTower = ControlTowerConfig_new,
      logging = LoggingConfig_new,
      reports = None,
      limits = None,
      ssmParameters = None,
      backup = None,
      snsTopics = None,
      ssmInventory = None,
      tags = Some [],
      acceleratorMetadata = None,
      acceleratorSettings = None\<rparr>"

text \<open>One property of \<^verbatim>\<open>Object.assign(this, values)\<close>: a missing key leaves the field alone.\<close>

fun assign :: "'a option \<Rightarrow> 'a property \<Rightarrow> 'a option" where
  "assign cur Absent = cur"
| "assign cur Undefined = None"
| "assign cur (Defined v) = Some v"

definition Object_assign :: "GlobalConfig \<Rightarrow> globalConfigType \<Rightarrow> GlobalConfig" where
  "Object_assign this values =
     \<lparr>homeRegion = globalConfigType.homeRegion values,
      enabledRegions = globalConfigType.enabledRegions values,
      managementAccountAccessRole = globalConfigType.managementAccountAccessRole values,
      cloudwatchLogRetentionInDays = globalConfigType.cloudwatchLogRetentionInDays values,
      centralizeCdkBuckets =
        assign (centralizeCdkBuckets this) (globalConfigType.centralizeCdkBuckets values),
      cdkOptions = assign (cdkOptions this) (globalConfigType.cdkOptions values),
      terminationProtection =
        assign (terminationProtection this) (globalConfigType.terminationProtection values),
      externalLandingZoneResources =
        assign (externalLandingZoneResources this)
          (globalConfigType.externalLandingZoneResources values),
      controlTower = globalConfigType.controlTower values,
      logging = globalConfigType.logging values,
      reports = assign (reports this) (globalConfigType.reports values),
      limits = assign (limits this) (globalConfigType.limits values),
      ssmParameters = assign (ssmParameters this) (globalConfigType.ssmParameters values),
      backup = assign (backup this) (globalConfigType.backup values),
      snsTopics = assign (snsTopics this) (globalConfigType.snsTopics values),
      ssmInventory = assign (ssmInventory this) (globalConfigType.ssmInventory values),
      tags = assign (tags this) (globalConfigType.tags values),
      acceleratorMetadata =
        assign (acceleratorMetadata this) (globalConfigType.acceleratorMetadata values),
      acceleratorSettings =
        assign (acceleratorSettings this) (globalConfigType.acceleratorSettings values)\<rparr>"

text \<open>
  The constructor's first argument. Its declared type asks for three fields; the callers
  hand over the whole parsed \<^verbatim>\<open>controlTower\<close> object, which the spread
  \<^verbatim>\<open>{ ...props.controlTower, controls: [] }\<close> copies before it overrides \<^verbatim>\<open>controls\<close>.
\<close>

record props =
  homeRegion :: string
  controlTower :: ControlTowerConfig
  managementAccountAccessRole :: string

definition constructor :: "props \<Rightarrow> globalConfigType option \<Rightarrow> GlobalConfig" where
  "constructor p values =
     (case values of
        Some v \<Rightarrow> Object_assign GlobalConfig_fields v
      | None \<Rightarrow>
          GlobalConfig_fields
            \<lparr>GlobalConfig.homeRegion := props.homeRegion p,
             GlobalConfig.enabledRegions := [props.homeRegion p],
             GlobalConfig.controlTower := (props.controlTower p)\<lparr>controls := Some []\<rparr>,
             GlobalConfig.managementAccountAccessRole := props.managementAccountAccessRole p\<rparr>)"

section \<open>The file system\<close>

text \<open>
  Every path the module touches is \<^verbatim>\<open>path.join(directory, fileName)\<close>, so the disk
  is a map from a directory to its entries. \<^verbatim>\<open>fs.mkdtemp(prefix)\<close> appends six random
  characters to the prefix and creates that directory, drawing again when the name is
  taken; \<open>tmpnames\<close> holds the draws to come. File names are taken to hold no path
  separator: a stack name with one would make \<^verbatim>\<open>path.join\<close> address another directory.
\<close>

record filesystem =
  dirs :: "string \<rightharpoonup> (string \<rightharpoonup> string)"
  tmpnames :: "string list"

definition ENOENT :: error where
  "ENOENT = JsError ''Error'' (Some ''ENOENT'') ''ENOENT: no such file or directory''"

definition EEXIST :: error where
  "EEXIST = JsError ''Error'' (Some ''EEXIST'') ''EEXIST: file already exists''"

definition readFileSync :: "filesystem \<Rightarrow> string \<Rightarrow> string \<Rightarrow> error + string" where
  "readFileSync d dir file =
     (case dirs d dir of
        None \<Rightarrow> Inl ENOENT
      | Some entries \<Rightarrow> (case entries file of None \<Rightarrow> Inl ENOENT | Some content \<Rightarrow> Inr content))"

definition existsSync :: "filesystem \<Rightarrow> string \<Rightarrow> string \<Rightarrow> bool" where
  "existsSync d dir file =
     (case dirs d dir of None \<Rightarrow> False | Some entries \<Rightarrow> entries file \<noteq> None)"

definition writeFileSync :: "filesystem \<Rightarrow> string \<Rightarrow> string \<Rightarrow> string \<Rightarrow> error + filesystem" where
  "writeFileSync d dir file content =
     (case dirs d dir of
        None \<Rightarrow> Inl ENOENT
      | Some entries \<Rightarrow> Inr (d\<lparr>dirs := (dirs d)(dir \<mapsto> entries(file \<mapsto> content))\<rparr>))"

definition mkdtemp :: "filesystem \<Rightarrow> string \<Rightarrow> error + (string \<times> filesystem)" where
  "mkdtemp d prefix =
     (case dropWhile (\<lambda>suffix. dirs d (prefix @ suffix) \<noteq> None) (tmpnames d) of
        [] \<Rightarrow> Inl EEXIST
      | suffix # rest \<Rightarrow>
          Inr (prefix @ suffix,
               d\<lparr>dirs := (dirs d)(prefix @ suffix \<mapsto> Map.empty), tmpnames := rest\<rparr>))"

section \<open>The loader\<close>

text \<open>
  What the loader calls and does not define: \<^verbatim>\<open>yaml.load\<close>, and \<^verbatim>\<open>t.parse\<close> at the
  root schema. Each either throws or returns.
\<close>

record 'raw loader_env =
  yaml_load :: "string \<Rightarrow> error + 'raw"
  t_parse :: "'raw \<Rightarrow> error + globalConfigType"

definition path_join :: "string \<Rightarrow> string \<Rightarrow> string" where
  "path_join dir file = dir @ ''/'' @ file"

definition load :: "'raw loader_env \<Rightarrow> filesystem \<Rightarrow> string \<Rightarrow> error + GlobalConfig" where
  "load E d dir =
     (case readFileSync d dir FILENAME of
        Inl e \<Rightarrow> Inl e
      | Inr buffer \<Rightarrow>
          (case yaml_load E buffer of
             Inl e \<Rightarrow> Inl e
           | Inr raw \<Rightarrow>
               (case t_parse E raw of
                  Inl e \<Rightarrow> Inl e
                | Inr values \<Rightarrow>
                    Inr (constructor
                           \<lparr>props.homeRegion = globalConfigType.homeRegion values,
                            props.controlTower = globalConfigType.controlTower values,
                            props.managementAccountAccessRole =
                              globalConfigType.managementAccountAccessRole values\<rparr>
                           (Some values)))))"

text \<open>
  \<^verbatim>\<open>loadFromString\<close> hands the parsed values over as \<^verbatim>\<open>props\<close> and passes no second
  argument. The result is the console output together with the thrown error or the
  returned value; the declared return type is \<^verbatim>\<open>GlobalConfig | undefined\<close>, and
  \<open>None\<close> stands for \<^verbatim>\<open>undefined\<close>.
\<close>

definition props_of :: "globalConfigType \<Rightarrow> props" where
  "props_of values =
     \<lparr>props.homeRegion = globalConfigType.homeRegion values,
      props.controlTower = globalConfigType.controlTower values,
      props.managementAccountAccessRole = globalConfigType.managementAccountAccessRole values\<rparr>"

definition loadFromString_try :: "'raw loader_env \<Rightarrow> string \<Rightarrow> error + GlobalConfig" where
  "loadFromString_try E content =
     (case yaml_load E content of
        Inl e \<Rightarrow> Inl e
      | Inr raw \<Rightarrow>
          (case t_parse E raw of
             Inl e \<Rightarrow> Inl e
           | Inr values \<Rightarrow> Inr (constructor (props_of values) None)))"

definition loadFromString ::
  "'raw loader_env \<Rightarrow> string \<Rightarrow> string list \<times> (error + GlobalConfig option)" where
  "loadFromString E content =
     (case loadFromString_try E content of
        Inr c \<Rightarrow> ([], Inr (Some c))
      | Inl e \<Rightarrow>
          ([''Error parsing input, global config undefined'', error_toString e],
           Inl (Error ''Could not load global configuration'')))"

definition fromObject :: "'raw loader_env \<Rightarrow> 'raw \<Rightarrow> error + GlobalConfig" where
  "fromObject E content =
     (case t_parse E content of
        Inl e \<Rightarrow> Inl e
      | Inr values \<Rightarrow>
          Inr (constructor
                 \<lparr>props.homeRegion = globalConfigType.homeRegion values,
                  props.controlTower = globalConfigType.controlTower values,
                  props.managementAccountAccessRole =
                    globalConfigType.managementAccountAccessRole values\<rparr>
                 (Some values)))"

text \<open>The three required top-level fields of an instance agree with those of a parsed document.\<close>

definition same_required_fields :: "GlobalConfig \<Rightarrow> globalConfigType \<Rightarrow> bool" where
  "same_required_fields c D \<longleftrightarrow>
     GlobalConfig.homeRegion c = globalConfigType.homeRegion D \<and>
     GlobalConfig.managementAccountAccessRole c = globalConfigType.managementAccountAccessRole D \<and>
     ControlTowerConfig.enable (GlobalConfig.controlTower c) =
       ControlTowerConfig.enable (globalConfigType.controlTower D)"

section \<open>The external resource reconciler\<close>

subsection \<open>Remote services\<close>

record AssumeRoleCommandInput =
  RoleArn :: string
  RoleSessionName :: string
  DurationSeconds :: nat

record Credentials =
  AccessKeyId :: "string option"
  SecretAccessKey :: "string option"
  SessionToken :: "string option"

record AssumeRoleCommandOutput =
  Credentials :: "Credentials option"

record SSMClient =
  accessKeyId :: "string option"
  secretAccessKey :: "string option"
  sessionToken :: "string option"
  region :: string

record GetParametersByPathCommandInput =
  Path :: string
  MaxResults :: nat
  NextToken :: "string option"
  Recursive :: bool

record Parameter =
  Name :: string
  Value :: string

record GetParametersByPathCommandOutput =
  Parameters :: "Parameter list option"
  NextToken :: "string option"

text \<open>
  The collaborators of the reconciler. \<open>s3_getObject region Bucket Key\<close> throws or
  returns the response's \<^verbatim>\<open>Body\<close>, if it has one; \<open>sts_send\<close> and \<open>ssm_send\<close> answer
  one request. \<^verbatim>\<open>JSON.parse\<close> is taken at the type the caller goes on to use, and
  \<^verbatim>\<open>JSON.stringify\<close> at the types it is called with. The four members of the enum
  \<^verbatim>\<open>t.AseaResourceTypePaths\<close> are constants of the missing \<^verbatim>\<open>common-types.ts\<close>.
\<close>

record services =
  os_tmpdir :: string
  s3_getObject :: "string \<Rightarrow> string \<Rightarrow> string \<Rightarrow> error + string option"
  sts_send :: "string \<Rightarrow> AssumeRoleCommandInput \<Rightarrow> error + AssumeRoleCommandOutput option"
  ssm_send :: "SSMClient \<Rightarrow> GetParametersByPathCommandInput \<Rightarrow> error + GetParametersByPathCommandOutput"
  JSON_parse_mapping :: "string \<Rightarrow> error + AccountMapping list"
  JSON_parse_resources :: "string \<Rightarrow> error + json list"
  JSON_stringify_mapping :: "AccountMapping list \<Rightarrow> string"
  JSON_stringify :: "json \<Rightarrow> string"
  JSON_stringify_error :: "error \<Rightarrow> string"
  AseaResourceTypePaths_IAM :: string
  AseaResourceTypePaths_VPC :: string
  AseaResourceTypePaths_TRANSIT_GATEWAY :: string
  AseaResourceTypePaths_VPC_PEERING :: string

text \<open>
  Modelled from the spec: \<^verbatim>\<open>throttlingBackOff\<close> of the missing
  \<^verbatim>\<open>common/aws/backoff.ts\<close>. The spec has it retry a throttled call transparently
  until it succeeds or the policy is exhausted, when the failure surfaces; the answer of a
  service above is the outcome of that retried call.
\<close>

definition throttlingBackOff :: "'a \<Rightarrow> 'a" where
  "throttlingBackOff outcome = outcome"

subsection \<open>State\<close>

text \<open>
  The reconciler's methods mutate the instance and the disk, send requests and write to
  the console. A method returns the state it leaves behind together with its thrown error
  or its value.
\<close>

record state =
  this :: GlobalConfig
  disk :: filesystem
  s3_requests :: "(string \<times> string) list"
  console :: "string list"

text \<open>JavaScript truthiness of a possibly undefined string.\<close>

fun truthy :: "string option \<Rightarrow> bool" where
  "truthy None = False"
| "truthy (Some s) = (s \<noteq> [])"

subsection \<open>Strings\<close>

text \<open>\<^verbatim>\<open>s.indexOf(pattern)\<close>, \<^verbatim>\<open>s.includes(pattern)\<close> and \<^verbatim>\<open>s[i]\<close>.\<close>

fun indexOf :: "string \<Rightarrow> string \<Rightarrow> int" where
  "indexOf [] pattern = (if pattern = [] then 0 else -1)"
| "indexOf (c # s) pattern =
     (if take (length pattern) (c # s) = pattern then 0
      else (let i = indexOf s pattern in if i < 0 then -1 else i + 1))"

definition string_includes :: "string \<Rightarrow> string \<Rightarrow> bool" where
  "string_includes s pattern \<longleftrightarrow> indexOf s pattern \<noteq> -1"

definition charAt :: "string \<Rightarrow> int \<Rightarrow> char option" where
  "charAt s i = (if 0 \<le> i \<and> i < int (length s) then Some (s ! nat i) else None)"

text \<open>
  \<^verbatim>\<open>Number(x)\<close> for \<^verbatim>\<open>x\<close> a one-character string or \<^verbatim>\<open>undefined\<close>: a decimal digit is
  its value, a white-space character is \<^verbatim>\<open>0\<close>, anything else is \<^verbatim>\<open>NaN\<close>.
\<close>

definition Number :: "char option \<Rightarrow> number" where
  "Number x =
     (case x of
        None \<Rightarrow> NaN
      | Some c \<Rightarrow>
          (let n = of_char c :: nat in
           if 48 \<le> n \<and> n \<le> 57 then Num (int n - 48)
           else if n \<in> {9, 10, 11, 12, 13, 32, 160} then Num 0
           else NaN))"

subsection \<open>\<^verbatim>\<open>setTemplateMap\<close>\<close>

definition derive_phase :: "string \<Rightarrow> number" where
  "derive_phase name =
     (let phaseIdentifierIndex = indexOf name ''Phase'' + 5;
          phase = charAt name phaseIdentifierIndex
      in if phase = Some CHR ''-'' then Num (-1) else Number phase)"

definition nested_ids_of :: "CfnResourceType list \<Rightarrow> string list" where
  "nested_ids_of cfnResources =
     map physicalResourceId
       (filter (\<lambda>cfnResource. resourceType cfnResource = ''AWS::CloudFormation::Stack'')
          cfnResources)"

definition stack_info :: "AccountMapping \<Rightarrow> StackAndResourceMap \<Rightarrow> string \<Rightarrow> AseaStackInfo" where
  "stack_info acct stack path =
     \<lparr>AseaStackInfo.accountId = AccountMapping.accountId acct,
      AseaStackInfo.accountKey = AccountMapping.accountKey acct,
      AseaStackInfo.region = StackAndResourceMap.region stack,
      AseaStackInfo.stackName = StackAndResourceMap.stackName stack,
      resources = resourceMap stack,
      templatePath = path,
      phase = derive_phase (StackAndResourceMap.stackName stack),
      nestedStack = truthy (parentStack stack)\<rparr>"

text \<open>
  The inner loop over the stacks of one account: a fresh directory and a template file
  per stack, the nested-stack identifiers collected, one descriptor pushed.
\<close>

fun stacks_loop ::
  "services \<Rightarrow> AccountMapping \<Rightarrow> StackAndResourceMap list \<Rightarrow> filesystem \<Rightarrow>
   AseaStackInfo list \<Rightarrow> string list \<Rightarrow>
   filesystem \<times> (error + AseaStackInfo list \<times> string list)" where
  "stacks_loop S acct [] d aseaStacks nestedStackPhysicalIds =
     (d, Inr (aseaStacks, nestedStackPhysicalIds))"
| "stacks_loop S acct (stack # stacks) d aseaStacks nestedStackPhysicalIds =
     (case mkdtemp d (path_join (os_tmpdir S) ''asea-templates-'') of
        Inl e \<Rightarrow> (d, Inl e)
      | Inr (tempDirPath, d1) \<Rightarrow>
          (let file = StackAndResourceMap.stackName stack @ ''.json'';
               templatePath = path_join tempDirPath file
           in case writeFileSync d1 tempDirPath file (JSON_stringify S (template stack)) of
                Inl e \<Rightarrow> (d1, Inl e)
              | Inr d2 \<Rightarrow>
                  stacks_loop S acct stacks d2
                    (aseaStacks @ [stack_info acct stack templatePath])
                    (nestedStackPhysicalIds @ nested_ids_of (resourceMap stack))))"

text \<open>\<^verbatim>\<open>Array.prototype.findIndex\<close>: the first index whose element passes, or \<^verbatim>\<open>-1\<close>.\<close>

fun findIndex :: "('a \<Rightarrow> bool) \<Rightarrow> 'a list \<Rightarrow> int" where
  "findIndex P [] = -1"
| "findIndex P (x # xs) =
     (if P x then 0 else (let i = findIndex P xs in if i < 0 then -1 else i + 1))"

definition mark_nested :: "string \<Rightarrow> AseaStackInfo list \<Rightarrow> AseaStackInfo list" where
  "mark_nested physicalId aseaStacks =
     (let nestedStackIndex =
            findIndex (\<lambda>stack. string_includes physicalId ('':stack/'' @ AseaStackInfo.stackName stack @ ''/''))
              aseaStacks
      in if nestedStackIndex > -1
         then aseaStacks[nat nestedStackIndex := (aseaStacks ! nat nestedStackIndex)\<lparr>nestedStack := True\<rparr>]
         else aseaStacks)"

text \<open>
  \<^verbatim>\<open>this.externalLandingZoneResources?.accountsDeployedExternally.push(id)\<close>: skipped
  when the section is \<^verbatim>\<open>undefined\<close>, a \<^verbatim>\<open>TypeError\<close> when the array is.
\<close>

definition push_account :: "GlobalConfig \<Rightarrow> string \<Rightarrow> error + GlobalConfig" where
  "push_account c newId =
     (case GlobalConfig.externalLandingZoneResources c of
        None \<Rightarrow> Inr c
      | Some elz \<Rightarrow>
          (case accountsDeployedExternally elz of
             None \<Rightarrow> Inl (TypeError ''Cannot read properties of undefined (reading push)'')
           | Some ids \<Rightarrow>
               Inr (c\<lparr>GlobalConfig.externalLandingZoneResources :=
                        Some (elz\<lparr>accountsDeployedExternally := Some (ids @ [newId])\<rparr>)\<rparr>)))"

fun accounts_loop ::
  "services \<Rightarrow> AccountMapping list \<Rightarrow> state \<Rightarrow> AseaStackInfo list \<Rightarrow>
   state \<times> (error + AseaStackInfo list)" where
  "accounts_loop S [] st aseaStacks = (st, Inr aseaStacks)"
| "accounts_loop S (acct # accts) st aseaStacks =
     (case push_account (this st) (AccountMapping.accountId acct) of
        Inl e \<Rightarrow> (st, Inl e)
      | Inr c \<Rightarrow>
          (case stacks_loop S acct (stacksAndResourceMapList acct) (disk st) aseaStacks [] of
             (d, Inl e) \<Rightarrow> (st\<lparr>this := c, disk := d\<rparr>, Inl e)
           | (d, Inr (aseaStacks1, nestedStackPhysicalIds)) \<Rightarrow>
               accounts_loop S accts (st\<lparr>this := c, disk := d\<rparr>)
                 (fold mark_nested nestedStackPhysicalIds aseaStacks1)))"

text \<open>An \<^verbatim>\<open>undefined\<close> manifest is not iterable.\<close>

definition setTemplateMap ::
  "services \<Rightarrow> AccountMapping list option \<Rightarrow> state \<Rightarrow> state \<times> (error + AseaStackInfo list)" where
  "setTemplateMap S mappingJson st =
     (case mappingJson of
        None \<Rightarrow> (st, Inl (TypeError ''mappingJson is not iterable''))
      | Some accts \<Rightarrow> accounts_loop S accts st [])"

subsection \<open>\<^verbatim>\<open>loadExternalMapping\<close>\<close>

text \<open>
  The guard shared by the object-storage methods: the section is there, import is on and
  \<^verbatim>\<open>mappingFileBucket\<close> is truthy. It yields the bucket.
\<close>

definition import_bucket :: "GlobalConfig \<Rightarrow> string option" where
  "import_bucket c =
     (case GlobalConfig.externalLandingZoneResources c of
        None \<Rightarrow> None
      | Some elz \<Rightarrow>
          if importExternalLandingZoneResources elz \<and> truthy (mappingFileBucket elz)
          then mappingFileBucket elz else None)"

definition log_request :: "string \<Rightarrow> string \<Rightarrow> state \<Rightarrow> state" where
  "log_request bucket key st = st\<lparr>s3_requests := s3_requests st @ [(bucket, key)]\<rparr>"

definition console_error :: "string \<Rightarrow> state \<Rightarrow> state" where
  "console_error line st = st\<lparr>console := console st @ [line]\<rparr>"

definition loadExternalMappingFromS3 ::
  "services \<Rightarrow> string \<Rightarrow> state \<Rightarrow> state \<times> (error + AccountMapping list option)" where
  "loadExternalMappingFromS3 S s3Client st =
     (case import_bucket (this st) of
        None \<Rightarrow> (st, Inr None)
      | Some bucket \<Rightarrow>
          (let st1 = log_request bucket ''mapping.json'' st
           in case s3_getObject S s3Client bucket ''mapping.json'' of
                Inl e \<Rightarrow> (st1, Inl e)
              | Inr None \<Rightarrow>
                  (console_error
                     (''Could not load mapping file from path s3://'' @ bucket @ ''/mapping.json'') st1,
                   Inl (Error ''Runtime error''))
              | Inr (Some body) \<Rightarrow>
                  (case JSON_parse_mapping S body of
                     Inl e \<Rightarrow> (st1, Inl e)
                   | Inr mapping \<Rightarrow> (st1, Inr (Some mapping)))))"

definition readJsonFromExternalS3 ::
  "services \<Rightarrow> string \<Rightarrow> string \<Rightarrow> state \<Rightarrow> state \<times> (error + json list option)" where
  "readJsonFromExternalS3 S objectKey s3Client st =
     (case import_bucket (this st) of
        None \<Rightarrow>
          (st, Inl (Error (''readJsonFromExternalS3 can only be called when ''
                        @ ''importExternalLandingZoneResources set as true and ''
                        @ ''mappingFileBucket is provided'')))
      | Some bucket \<Rightarrow>
          (let st1 = log_request bucket objectKey st;
               attempt =
                 (case s3_getObject S s3Client bucket objectKey of
                    Inl e \<Rightarrow> (st1, Inl e)
                  | Inr None \<Rightarrow>
                      (console_error
                         (''Could not load mapping file from path s3://'' @ bucket @ ''/'' @ objectKey)
                         st1,
                       Inr None)
                  | Inr (Some body) \<Rightarrow>
                      (case JSON_parse_resources S body of
                         Inl e \<Rightarrow> (st1, Inl e)
                       | Inr v \<Rightarrow> (st1, Inr (Some v))))
           in case attempt of
                (st2, Inl e) \<Rightarrow>
                  if err_code e = Some ''NoSuchKey'' then (st2, Inr None) else (st2, Inl e)
              | (st2, Inr v) \<Rightarrow> (st2, Inr v)))"

definition readJsonFromDisk ::
  "(string \<Rightarrow> error + 'a) \<Rightarrow> filesystem \<Rightarrow> string \<Rightarrow> string \<Rightarrow> error + 'a" where
  "readJsonFromDisk JSON_parse d dir file =
     (case readFileSync d dir file of Inl e \<Rightarrow> Inl e | Inr mappingFile \<Rightarrow> JSON_parse mappingFile)"

text \<open>
  An assignment to a field of \<^verbatim>\<open>this.externalLandingZoneResources\<close>. The methods below
  make it after their entry guard has found the section defined.
\<close>

definition modify_elz ::
  "(externalLandingZoneResourcesConfig \<Rightarrow> externalLandingZoneResourcesConfig) \<Rightarrow> state \<Rightarrow> state" where
  "modify_elz f st =
     st\<lparr>this := (this st)\<lparr>GlobalConfig.externalLandingZoneResources :=
                            map_option f (GlobalConfig.externalLandingZoneResources (this st))\<rparr>\<rparr>"

definition load_from_cache :: "services \<Rightarrow> string \<Rightarrow> state \<Rightarrow> state \<times> (error + unit)" where
  "load_from_cache S tempDirPath st =
     (case readJsonFromDisk (JSON_parse_mapping S) (disk st) tempDirPath ''aseaMapping.json'' of
        Inl e \<Rightarrow> (st, Inl e)
      | Inr mapping \<Rightarrow>
          (case setTemplateMap S (Some mapping) st of
             (st1, Inl e) \<Rightarrow> (st1, Inl e)
           | (st1, Inr stacks) \<Rightarrow>
               (let st2 = modify_elz (\<lambda>elz. elz\<lparr>templateMap := Some stacks\<rparr>) st1
                in case readJsonFromDisk (JSON_parse_resources S) (disk st2) tempDirPath
                          ''aseaResources.json'' of
                     Inl e \<Rightarrow> (st2, Inl e)
                   | Inr resourceList' \<Rightarrow>
                       (modify_elz (\<lambda>elz. elz\<lparr>resourceList := Some resourceList'\<rparr>) st2, Inr ()))))"

definition load_from_s3 :: "services \<Rightarrow> string \<Rightarrow> state \<Rightarrow> state \<times> (error + unit)" where
  "load_from_s3 S tempDirPath st =
     (let s3Client = GlobalConfig.homeRegion (this st)
      in case loadExternalMappingFromS3 S s3Client st of
           (st1, Inl e) \<Rightarrow> (st1, Inl e)
         | (st1, Inr mapping) \<Rightarrow>
             (case setTemplateMap S mapping st1 of
                (st2, Inl e) \<Rightarrow> (st2, Inl e)
              | (st2, Inr stacks) \<Rightarrow>
                  (let st3 = modify_elz (\<lambda>elz. elz\<lparr>templateMap := Some stacks\<rparr>) st2
                   in case readJsonFromExternalS3 S ''aseaResources.json'' s3Client st3 of
                        (st4, Inl e) \<Rightarrow> (st4, Inl e)
                      | (st4, Inr fetched) \<Rightarrow>
                          (let resourceList' = (case fetched of None \<Rightarrow> [] | Some l \<Rightarrow> l);
                               st5 = modify_elz (\<lambda>elz. elz\<lparr>resourceList := Some resourceList'\<rparr>) st4
                           in case mapping of
                                None \<Rightarrow> (st5, Inl (TypeError ''The data argument must be of type string''))
                              | Some m \<Rightarrow>
                                  (case writeFileSync (disk st5) tempDirPath ''aseaMapping.json''
                                          (JSON_stringify_mapping S m) of
                                     Inl e \<Rightarrow> (st5, Inl e)
                                   | Inr d1 \<Rightarrow>
                                       (case writeFileSync d1 tempDirPath ''aseaResources.json''
                                               (JSON_stringify S (JArr resourceList')) of
                                          Inl e \<Rightarrow> (st5\<lparr>disk := d1\<rparr>, Inl e)
                                        | Inr d2 \<Rightarrow> (st5\<lparr>disk := d2\<rparr>, Inr ())))))))"

definition loadExternalMapping :: "services \<Rightarrow> bool \<Rightarrow> state \<Rightarrow> state \<times> (error + unit)" where
  "loadExternalMapping S loadFromCache st =
     (case GlobalConfig.externalLandingZoneResources (this st) of
        None \<Rightarrow> (st, Inr ())
      | Some elz \<Rightarrow>
          if \<not> importExternalLandingZoneResources elz then (st, Inr ())
          else
            (let st1 = modify_elz (\<lambda>elz. elz\<lparr>accountsDeployedExternally := Some []\<rparr>) st
             in case mkdtemp (disk st1) (path_join (os_tmpdir S) ''asea-assets'') of
                  Inl e \<Rightarrow> (st1, Inl e)
                | Inr (tempDirPath, d) \<Rightarrow>
                    (let st2 = st1\<lparr>disk := d\<rparr>
                     in if loadFromCache \<and> existsSync (disk st2) tempDirPath ''aseaMapping.json''
                        then load_from_cache S tempDirPath st2
                        else load_from_s3 S tempDirPath st2)))"

subsection \<open>\<^verbatim>\<open>loadLzaResources\<close>\<close>

definition getCrossAccountCredentials ::
  "services \<Rightarrow> string \<Rightarrow> string \<Rightarrow> string \<Rightarrow> string \<Rightarrow> state \<Rightarrow>
   state \<times> (error + AssumeRoleCommandOutput)" where
  "getCrossAccountCredentials S acctId rgn awsPartition role st =
     (let stsParams =
            \<lparr>RoleArn = ''arn:'' @ awsPartition @ '':iam::'' @ acctId @ '':role/'' @ role,
             RoleSessionName = ''acceleratorResourceMapping'',
             DurationSeconds = 900\<rparr>;
          attempt =
            (case throttlingBackOff (sts_send S rgn stsParams) of
               Inl e \<Rightarrow> Inl e
             | Inr None \<Rightarrow>
                 Inl (Error (''Error assuming role '' @ role @ '' in account '' @ acctId
                             @ '' for bootstrap checks''))
             | Inr (Some assumeRoleCredential) \<Rightarrow> Inr assumeRoleCredential)
      in case attempt of
           Inl e \<Rightarrow> (console_error (JSON_stringify_error S e) st, Inl (Error (err_message e)))
         | Inr assumeRoleCredential \<Rightarrow> (st, Inr assumeRoleCredential))"

definition getCrossAccountSsmClient :: "string \<Rightarrow> AssumeRoleCommandOutput \<Rightarrow> error + SSMClient" where
  "getCrossAccountSsmClient rgn assumeRoleCredential =
     (case Credentials assumeRoleCredential of
        None \<Rightarrow> Inl (TypeError ''Cannot read properties of undefined (reading AccessKeyId)'')
      | Some creds \<Rightarrow>
          Inr \<lparr>accessKeyId = AccessKeyId creds,
               secretAccessKey = SecretAccessKey creds,
               sessionToken = SessionToken creds,
               SSMClient.region = rgn\<rparr>)"

text \<open>
  The body of the \<^verbatim>\<open>do \<dots> while (nextToken)\<close> loop of \<^verbatim>\<open>getParametersByPath\<close>.
  \<open>None\<close> is a loop that never ends.
\<close>

definition store_parameters :: "Parameter list option \<Rightarrow> (string \<rightharpoonup> string) \<Rightarrow> (string \<rightharpoonup> string)" where
  "store_parameters ps parameters =
     (case ps of
        None \<Rightarrow> parameters
      | Some l \<Rightarrow> fold (\<lambda>parameter m. m(Name parameter \<mapsto> Value parameter)) l parameters)"

partial_function (option) getParametersByPath_loop ::
  "services \<Rightarrow> SSMClient \<Rightarrow> string \<Rightarrow> string option \<Rightarrow> (string \<rightharpoonup> string) \<Rightarrow>
   (error + (string \<rightharpoonup> string)) option" where
  "getParametersByPath_loop S ssmClient path nextToken parameters =
     (case throttlingBackOff
             (ssm_send S ssmClient
                \<lparr>Path = path, MaxResults = 10,
                 GetParametersByPathCommandInput.NextToken = nextToken, Recursive = True\<rparr>) of
        Inl e \<Rightarrow> Some (Inl e)
      | Inr parametersOutput \<Rightarrow>
          (if truthy (GetParametersByPathCommandOutput.NextToken parametersOutput)
           then getParametersByPath_loop S ssmClient path
                  (GetParametersByPathCommandOutput.NextToken parametersOutput)
                  (store_parameters (Parameters parametersOutput) parameters)
           else Some (Inr (store_parameters (Parameters parametersOutput) parameters))))"

declare getParametersByPath_loop.simps [code]

definition getParametersByPath ::
  "services \<Rightarrow> string \<Rightarrow> SSMClient \<Rightarrow> (error + (string \<rightharpoonup> string)) option" where
  "getParametersByPath S path ssmClient = getParametersByPath_loop S ssmClient path None Map.empty"

text \<open>
  \<^verbatim>\<open>await Promise.all(promises)\<close> over promises whose outcomes are known. It rejects
  with the rejection that happens first, and which one that is depends on timing: every
  rejection among the promises is a way it may settle. It is fulfilled, with the values
  in order, only when all promises are, and it never settles when no promise rejects and
  one never settles. The result lists the ways it may settle.
\<close>

definition rejections :: "(error + 'a) option list \<Rightarrow> error list" where
  "rejections ps = concat (map (\<lambda>p. case p of Some (Inl e) \<Rightarrow> [e] | _ \<Rightarrow> []) ps)"

fun all_values :: "(error + 'a) option list \<Rightarrow> 'a list option" where
  "all_values [] = Some []"
| "all_values (Some (Inr v) # ps) = map_option (\<lambda>vs. v # vs) (all_values ps)"
| "all_values (p # ps) = None"

definition Promise_all :: "(error + 'a) option list \<Rightarrow> (error + 'a list) list" where
  "Promise_all ps =
     map Inl (rejections ps) @ (case all_values ps of None \<Rightarrow> [] | Some vs \<Rightarrow> [Inr vs])"

definition getSsmPath :: "string \<Rightarrow> string \<Rightarrow> string" where
  "getSsmPath prefix resourceTypePath = ''/'' @ prefix @ resourceTypePath"

text \<open>
  \<^verbatim>\<open>this.externalLandingZoneResources.resourceParameters[key] = value\<close>: a
  \<^verbatim>\<open>TypeError\<close> when the section or the object assigned into is \<^verbatim>\<open>undefined\<close>.
\<close>

definition set_resourceParameters :: "string \<Rightarrow> (string \<rightharpoonup> string) \<Rightarrow> state \<Rightarrow> error + state" where
  "set_resourceParameters key v st =
     (case GlobalConfig.externalLandingZoneResources (this st) of
        None \<Rightarrow> Inl (TypeError ''Cannot read properties of undefined (reading resourceParameters)'')
      | Some elz \<Rightarrow>
          (case resourceParameters elz of
             None \<Rightarrow> Inl (TypeError ''Cannot set properties of undefined'')
           | Some rp \<Rightarrow>
               Inr (modify_elz (\<lambda>elz. elz\<lparr>resourceParameters := Some (rp(key \<mapsto> v))\<rparr>) st)))"

definition ssmPromises ::
  "services \<Rightarrow> string \<Rightarrow> SSMClient \<Rightarrow> (error + (string \<rightharpoonup> string)) option list" where
  "ssmPromises S prefix ssmClient =
     [getParametersByPath S (getSsmPath prefix (AseaResourceTypePaths_IAM S)) ssmClient,
      getParametersByPath S (getSsmPath prefix (AseaResourceTypePaths_VPC S)) ssmClient,
      getParametersByPath S (getSsmPath prefix (AseaResourceTypePaths_TRANSIT_GATEWAY S)) ssmClient,
      getParametersByPath S (getSsmPath prefix (AseaResourceTypePaths_VPC_PEERING S)) ssmClient]"

definition import_enabled :: "GlobalConfig \<Rightarrow> bool" where
  "import_enabled c =
     (case GlobalConfig.externalLandingZoneResources c of
        None \<Rightarrow> False
      | Some elz \<Rightarrow> importExternalLandingZoneResources elz)"

text \<open>
  One pass through the body of the \<^verbatim>\<open>for (const accountId of accounts)\<close> loop of
  \<^verbatim>\<open>loadRegionLzaResources\<close>: the ways it may end, each with the state it leaves.
  \<open>Inr ()\<close> is a pass that reaches the end of the body, \<open>Inl e\<close> one that throws;
  a pass whose queries never settle ends in no way. The body touches the instance at one
  point only, the console line of a failed role assumption or the assignment at its end,
  and reads nothing another call writes, so a pass is taken as one step.
\<close>

definition reconcile_account ::
  "services \<Rightarrow> string \<Rightarrow> string \<Rightarrow> string \<Rightarrow> string \<Rightarrow> state \<Rightarrow>
   (state \<times> (error + unit)) list" where
  "reconcile_account S rgn awsPartition prefix acctId st =
     (case getCrossAccountCredentials S acctId rgn awsPartition
             (GlobalConfig.managementAccountAccessRole (this st)) st of
        (st1, Inl e) \<Rightarrow> [(st1, Inl e)]
      | (st1, Inr crossAccountCredentials) \<Rightarrow>
          (case getCrossAccountSsmClient rgn crossAccountCredentials of
             Inl e \<Rightarrow> [(st1, Inl e)]
           | Inr ssmClient \<Rightarrow>
               map (\<lambda>settled.
                      case settled of
                        Inl e \<Rightarrow> (st1, Inl e)
                      | Inr ssmResults \<Rightarrow>
                          (case set_resourceParameters (acctId @ ''-'' @ rgn)
                                  (foldl (\<lambda>resources result. resources ++ result) Map.empty
                                     ssmResults)
                                  st1 of
                             Inl e \<Rightarrow> (st1, Inl e)
                           | Inr st2 \<Rightarrow> (st2, Inr ())))
                 (Promise_all (ssmPromises S prefix ssmClient))))"

text \<open>
  A call of \<^verbatim>\<open>loadRegionLzaResources\<close> in flight: its region and the accounts its loop
  has still to go through. With import off the call returns before the loop.
\<close>

type_synonym task = "string \<times> string list"

definition loadRegionLzaResources :: "string \<Rightarrow> string list \<Rightarrow> state \<Rightarrow> task" where
  "loadRegionLzaResources rgn accts st = (rgn, if \<not> import_enabled (this st) then [] else accts)"

text \<open>
  \<^verbatim>\<open>await Promise.all(lzaResourcesPromises)\<close>. The calls are in flight together and no
  call is cancelled: at each step one of them, any one, takes its next pass. The await is
  fulfilled once every loop has run out, and it rejects at the first pass that throws,
  with the state as it is then, whatever the other calls have still to do.
  \<open>settles S awsPartition prefix tasks st st' outcome\<close>: from \<open>st\<close> the await may settle
  with \<open>outcome\<close> in state \<open>st'\<close>.
\<close>

inductive settles ::
  "services \<Rightarrow> string \<Rightarrow> string \<Rightarrow> task list \<Rightarrow> state \<Rightarrow> state \<Rightarrow> error + unit \<Rightarrow> bool"
  for S :: services and awsPartition :: string and prefix :: string where
  fulfilled:
    "list_all (\<lambda>t. snd t = []) tasks \<Longrightarrow> settles S awsPartition prefix tasks st st (Inr ())"
| rejected:
    "i < length tasks \<Longrightarrow> tasks ! i = (rgn, acctId # accts) \<Longrightarrow>
     (st1, Inl e) \<in> set (reconcile_account S rgn awsPartition prefix acctId st) \<Longrightarrow>
     settles S awsPartition prefix tasks st st1 (Inl e)"
| progress:
    "i < length tasks \<Longrightarrow> tasks ! i = (rgn, acctId # accts) \<Longrightarrow>
     (st1, Inr ()) \<in> set (reconcile_account S rgn awsPartition prefix acctId st) \<Longrightarrow>
     settles S awsPartition prefix (tasks[i := (rgn, accts)]) st1 st' outcome \<Longrightarrow>
     settles S awsPartition prefix tasks st st' outcome"

code_pred settles .

text \<open>
  \<^verbatim>\<open>if (!\<dots>resourceParameters) { \<dots>resourceParameters = {}; }\<close> and
  \<^verbatim>\<open>this.externalLandingZoneResources?.accountsDeployedExternally || []\<close>.
\<close>

definition init_resourceParameters :: "state \<Rightarrow> state" where
  "init_resourceParameters st =
     modify_elz
       (\<lambda>elz. if resourceParameters elz = None then elz\<lparr>resourceParameters := Some Map.empty\<rparr>
              else elz)
       st"

definition deployed_accounts :: "GlobalConfig \<Rightarrow> string list" where
  "deployed_accounts c =
     (case GlobalConfig.externalLandingZoneResources c of
        None \<Rightarrow> []
      | Some elz \<Rightarrow> (case accountsDeployedExternally elz of None \<Rightarrow> [] | Some l \<Rightarrow> l))"

text \<open>
  \<open>loadLzaResources S awsPartition prefix st st' outcome\<close>: called in \<open>st\<close>, the method
  may settle with \<open>outcome\<close>, fulfilled or rejected, in state \<open>st'\<close>.
\<close>

definition loadLzaResources ::
  "services \<Rightarrow> string \<Rightarrow> string \<Rightarrow> state \<Rightarrow> state \<Rightarrow> error + unit \<Rightarrow> bool" where
  "loadLzaResources S awsPartition prefix st st' outcome \<longleftrightarrow>
     (if \<not> import_enabled (this st) then st' = st \<and> outcome = Inr ()
      else
        (let st1 = init_resourceParameters st;
             lzaResourcesPromises =
               map (\<lambda>rgn. loadRegionLzaResources rgn (deployed_accounts (this st1)) st1)
                 (GlobalConfig.enabledRegions (this st1))
         in settles S awsPartition prefix lzaResourcesPromises st1 st' outcome))"

section \<open>Vocabulary of the statements\<close>

text \<open>
  Notions the statements below need and the module does not define: what a service
  answering with a given sequence of pages is, the stacks of a manifest in the order the
  loops visit them, and what is read off a state.
\<close>

text \<open>The request \<^verbatim>\<open>getParametersByPath\<close> sends for a path and a continuation token.\<close>

definition request :: "string \<Rightarrow> string option \<Rightarrow> GetParametersByPathCommandInput" where
  "request path token =
     \<lparr>Path = path, MaxResults = 10, GetParametersByPathCommandInput.NextToken = token,
      Recursive = True\<rparr>"

text \<open>
  The service answers the query for \<open>path\<close>, started at \<open>token\<close>, with exactly these
  pages: every page but the last carries a truthy \<^verbatim>\<open>NextToken\<close>, under which the next
  page is served, and the last one carries none.
\<close>

fun answers_with ::
  "services \<Rightarrow> SSMClient \<Rightarrow> string \<Rightarrow> string option \<Rightarrow> GetParametersByPathCommandOutput list \<Rightarrow> bool" where
  "answers_with S client path token [] = False"
| "answers_with S client path token [page] =
     (ssm_send S client (request path token) = Inr page
      \<and> \<not> truthy (GetParametersByPathCommandOutput.NextToken page))"
| "answers_with S client path token (page # pages) =
     (ssm_send S client (request path token) = Inr page
      \<and> truthy (GetParametersByPathCommandOutput.NextToken page)
      \<and> answers_with S client path (GetParametersByPathCommandOutput.NextToken page) pages)"

text \<open>The name and value pairs of one page and of a sequence of pages, in order.\<close>

definition page_entries :: "GetParametersByPathCommandOutput \<Rightarrow> (string \<times> string) list" where
  "page_entries page =
     (case Parameters page of None \<Rightarrow> [] | Some ps \<Rightarrow> map (\<lambda>p. (Name p, Value p)) ps)"

definition all_entries :: "GetParametersByPathCommandOutput list \<Rightarrow> (string \<times> string) list" where
  "all_entries pages = concat (map page_entries pages)"

text \<open>
  The stacks of a manifest in the order \<^verbatim>\<open>setTemplateMap\<close> pushes their descriptors, and
  the nested-stack identifiers it collects for one account.
\<close>

definition flat_stacks :: "AccountMapping list \<Rightarrow> StackAndResourceMap list" where
  "flat_stacks accts = concat (map stacksAndResourceMapList accts)"

definition account_nested_ids :: "AccountMapping \<Rightarrow> string list" where
  "account_nested_ids acct =
     concat (map (\<lambda>stack. nested_ids_of (resourceMap stack)) (stacksAndResourceMapList acct))"

text \<open>
  The test \<^verbatim>\<open>physicalId.includes(`:stack/${stackName}/`)\<close>, and the index
  \<^verbatim>\<open>findIndex\<close> returns for it: the first name of the list that passes.
\<close>

definition names_in :: "string \<Rightarrow> string \<Rightarrow> bool" where
  "names_in physicalId name \<longleftrightarrow> string_includes physicalId ('':stack/'' @ name @ ''/'')"

definition first_match :: "string \<Rightarrow> string list \<Rightarrow> nat \<Rightarrow> bool" where
  "first_match physicalId names k \<longleftrightarrow>
     k < length names \<and> names_in physicalId (names ! k)
     \<and> (\<forall>i<k. \<not> names_in physicalId (names ! i))"

text \<open>What a state holds in \<^verbatim>\<open>externalLandingZoneResources\<close>.\<close>

definition resourceList_of :: "state \<Rightarrow> json list option" where
  "resourceList_of st =
     (case GlobalConfig.externalLandingZoneResources (this st) of
        None \<Rightarrow> None
      | Some elz \<Rightarrow> resourceList elz)"

definition has_entry :: "state \<Rightarrow> string \<Rightarrow> bool" where
  "has_entry st key =
     (case GlobalConfig.externalLandingZoneResources (this st) of
        None \<Rightarrow> False
      | Some elz \<Rightarrow> (case resourceParameters elz of None \<Rightarrow> False | Some rp \<Rightarrow> rp key \<noteq> None))"

definition parameters_defined :: "state \<Rightarrow> bool" where
  "parameters_defined st =
     (case GlobalConfig.externalLandingZoneResources (this st) of
        None \<Rightarrow> False
      | Some elz \<Rightarrow> resourceParameters elz \<noteq> None)"

text \<open>The ways the pass over one account may end, without the states.\<close>

definition account_outcomes ::
  "services \<Rightarrow> string \<Rightarrow> string \<Rightarrow> string \<Rightarrow> string \<Rightarrow> state \<Rightarrow> (error + unit) list" where
  "account_outcomes S rgn awsPartition prefix acctId st =
     map snd (reconcile_account S rgn awsPartition prefix acctId st)"

section \<open>Sample inputs\<close>

text \<open>
  A document that sets optional keys away from the class defaults, whose home region is
  not among its enabled regions, and a loader environment that serves it.
\<close>

definition document0 :: globalConfigType where
  "document0 =
     \<lparr>globalConfigType.homeRegion = ''ca-central-1'',
      globalConfigType.enabledRegions = [''us-east-1'', ''us-west-2''],
      globalConfigType.managementAccountAccessRole = ''OrgAccessRole'',
      globalConfigType.cloudwatchLogRetentionInDays = 365,
      globalConfigType.terminationProtection = Defined False,
      globalConfigType.controlTower = \<lparr>ControlTowerConfig.enable = False, controls = Some [JStr ''AWS-GR_X'']\<rparr>,
      globalConfigType.centralizeCdkBuckets = Absent,
      globalConfigType.cdkOptions = Undefined,
      globalConfigType.externalLandingZoneResources = Absent,
      globalConfigType.logging = LoggingConfig_new\<lparr>account := ''Logs''\<rparr>,
      globalConfigType.reports = Absent,
      globalConfigType.backup = Defined (JObj [(''vaults'', JArr [])]),
      globalConfigType.snsTopics = Absent,
      globalConfigType.ssmInventory = Absent,
      globalConfigType.tags = Defined [JObj [(''key'', JStr ''Env''), (''value'', JStr ''Dev'')]],
      globalConfigType.ssmParameters = Absent,
      globalConfigType.limits = Absent,
      globalConfigType.acceleratorMetadata = Absent,
      globalConfigType.acceleratorSettings = Absent\<rparr>"

definition disk0 :: filesystem where
  "disk0 =
     \<lparr>dirs = [''/cfg'' \<mapsto> [''global-config.yaml'' \<mapsto> ''doc'']],
      tmpnames = [''a1B2c3'', ''d4E5f6'', ''g7H8i9'', ''j0K1l2'', ''m3N4o5'', ''p6Q7r8'',
                  ''s9T0u1'', ''v2W3x4'', ''y5Z6a7'', ''b8C9d0'', ''e1F2g3'', ''h4I5j6'']\<rparr>"

definition env0 :: "unit loader_env" where
  "env0 =
     \<lparr>yaml_load = (\<lambda>s. if s = ''doc'' then Inr () else Inl (JsError ''YAMLException'' None ''bad'')),
      t_parse = (\<lambda>_. Inr document0)\<rparr>"

text \<open>A loader environment whose \<^verbatim>\<open>yaml.load\<close> or \<^verbatim>\<open>t.parse\<close> throws.\<close>

definition env_invalid :: "unit loader_env" where
  "env_invalid =
     \<lparr>yaml_load = (\<lambda>s. if s = ''doc'' then Inr () else Inl (JsError ''YAMLException'' None ''bad indentation'')),
      t_parse = (\<lambda>_. Inl (Error ''Invalid value undefined supplied to homeRegion''))\<rparr>"

text \<open>
  A manifest of two accounts. Account \<^verbatim>\<open>111\<close> has a stack named \<^verbatim>\<open>Net\<close> in each of
  two regions and a stack \<^verbatim>\<open>Phase1\<close> with one nested-stack resource, whose identifier
  names \<^verbatim>\<open>Net\<close>; account \<^verbatim>\<open>222\<close> has a stack with a parent. The services serve
  \<^verbatim>\<open>mapping.json\<close> and no \<^verbatim>\<open>aseaResources.json\<close>, let the roles of accounts
  \<^verbatim>\<open>111\<close> and \<^verbatim>\<open>112\<close> be assumed and no other, and answer the IAM query in
  three pages.
\<close>

definition NoSuchKey :: error where
  "NoSuchKey = JsError ''NoSuchKey'' (Some ''NoSuchKey'') ''The specified key does not exist.''"

definition AccessDenied :: error where
  "AccessDenied = JsError ''AccessDenied'' (Some ''AccessDenied'') ''Access Denied''"

definition nested_id :: string where
  "nested_id = ''arn:aws:cloudformation:us-west-2:111:stack/Net/8f1c''"

definition mapping0 :: "AccountMapping list" where
  "mapping0 =
     [\<lparr>AccountMapping.accountId = ''111'', AccountMapping.accountKey = ''management'',
       stacksAndResourceMapList =
         [\<lparr>StackAndResourceMap.stackName = ''Net'', StackAndResourceMap.region = ''us-east-1'',
           template = JObj [], resourceMap = [], parentStack = None\<rparr>,
          \<lparr>StackAndResourceMap.stackName = ''Net'', StackAndResourceMap.region = ''us-west-2'',
           template = JObj [], resourceMap = [], parentStack = None\<rparr>,
          \<lparr>StackAndResourceMap.stackName = ''Phase1'', StackAndResourceMap.region = ''us-west-2'',
           template = JObj [],
           resourceMap =
             [\<lparr>resourceType = ''AWS::CloudFormation::Stack'', physicalResourceId = nested_id,
               resourceMetadata = JNull\<rparr>],
           parentStack = None\<rparr>]\<rparr>,
      \<lparr>AccountMapping.accountId = ''222'', AccountMapping.accountKey = ''operations'',
       stacksAndResourceMapList =
         [\<lparr>StackAndResourceMap.stackName = ''Sub'', StackAndResourceMap.region = ''us-east-1'',
           template = JObj [], resourceMap = [], parentStack = Some ''Phase1''\<rparr>]\<rparr>]"

definition page1 :: GetParametersByPathCommandOutput where
  "page1 =
     \<lparr>Parameters = Some [\<lparr>Name = ''/ASEA/iam/role'', Value = ''v1''\<rparr>,
                         \<lparr>Name = ''/ASEA/iam/user'', Value = ''u1''\<rparr>],
      GetParametersByPathCommandOutput.NextToken = Some ''t1''\<rparr>"

definition page2 :: GetParametersByPathCommandOutput where
  "page2 =
     \<lparr>Parameters = Some [\<lparr>Name = ''/ASEA/iam/role'', Value = ''v2''\<rparr>],
      GetParametersByPathCommandOutput.NextToken = Some ''t2''\<rparr>"

definition page3 :: GetParametersByPathCommandOutput where
  "page3 =
     \<lparr>Parameters = Some [\<lparr>Name = ''/ASEA/iam/group'', Value = ''g3''\<rparr>],
      GetParametersByPathCommandOutput.NextToken = None\<rparr>"

definition no_parameters :: GetParametersByPathCommandOutput where
  "no_parameters = \<lparr>Parameters = None, GetParametersByPathCommandOutput.NextToken = None\<rparr>"

definition services0 :: services where
  "services0 =
     \<lparr>os_tmpdir = ''/tmp'',
      s3_getObject =
        (\<lambda>s3Client bucket key.
           if bucket = ''asea-bucket'' \<and> key = ''mapping.json'' then Inr (Some ''MAPPING'')
           else Inl NoSuchKey),
      sts_send =
        (\<lambda>rgn input.
           if RoleArn input = ''arn:aws:iam::111:role/OrgAccessRole''
              \<or> RoleArn input = ''arn:aws:iam::112:role/OrgAccessRole''
           then Inr (Some \<lparr>Credentials =
                            Some \<lparr>AccessKeyId = Some ''AKIA'', SecretAccessKey = Some ''secret'',
                                  SessionToken = Some ''token''\<rparr>\<rparr>)
           else Inl AccessDenied),
      ssm_send =
        (\<lambda>ssmClient input.
           if Path input = ''/ASEA/iam''
           then (if GetParametersByPathCommandInput.NextToken input = None then Inr page1
                 else if GetParametersByPathCommandInput.NextToken input = Some ''t1'' then Inr page2
                 else Inr page3)
           else Inr no_parameters),
      JSON_parse_mapping =
        (\<lambda>text. if text = ''MAPPING'' then Inr mapping0
                else Inl (JsError ''SyntaxError'' None ''Unexpected token'')),
      JSON_parse_resources =
        (\<lambda>text. if text = ''[]'' then Inr []
                else Inl (JsError ''SyntaxError'' None ''Unexpected token'')),
      JSON_stringify_mapping = (\<lambda>m. ''MAPPING''),
      JSON_stringify = (\<lambda>j. if j = JArr [] then ''[]'' else ''{}''),
      JSON_stringify_error = (\<lambda>e. ''{}''),
      AseaResourceTypePaths_IAM = ''/iam'',
      AseaResourceTypePaths_VPC = ''/vpc'',
      AseaResourceTypePaths_TRANSIT_GATEWAY = ''/tgw'',
      AseaResourceTypePaths_VPC_PEERING = ''/peering''\<rparr>"

text \<open>Object storage without \<^verbatim>\<open>mapping.json\<close>, with an empty one, and one that refuses the resource list.\<close>

definition services_missing :: services where
  "services_missing = services0\<lparr>s3_getObject := (\<lambda>s3Client bucket key. Inl NoSuchKey)\<rparr>"

definition services_empty :: services where
  "services_empty = services0\<lparr>s3_getObject := (\<lambda>s3Client bucket key. Inr None)\<rparr>"

definition services_denied :: services where
  "services_denied =
     services0\<lparr>s3_getObject :=
       (\<lambda>s3Client bucket key.
          if key = ''mapping.json'' then Inr (Some ''MAPPING'') else Inl AccessDenied)\<rparr>"

text \<open>
  An instance as \<^verbatim>\<open>load\<close> leaves it for a document with the external section
  enabled, and states around it: fresh, after \<^verbatim>\<open>loadExternalMapping\<close> has reset the
  account list, with accounts \<^verbatim>\<open>111\<close> and \<^verbatim>\<open>222\<close> recorded, and with accounts
  \<^verbatim>\<open>111\<close>, \<^verbatim>\<open>112\<close> and \<^verbatim>\<open>222\<close> recorded and an entry of an earlier call stored.
\<close>

definition config0 :: GlobalConfig where
  "config0 =
     GlobalConfig_fields
       \<lparr>GlobalConfig.homeRegion := ''us-east-1'',
        GlobalConfig.enabledRegions := [''us-east-1''],
        GlobalConfig.managementAccountAccessRole := ''OrgAccessRole'',
        GlobalConfig.externalLandingZoneResources :=
          Some \<lparr>importExternalLandingZoneResources = True,
                mappingFileBucket = Some ''asea-bucket'',
                acceleratorPrefix = ''ASEA'', acceleratorName = ''ASEA'',
                templateMap = None, resourceList = None,
                accountsDeployedExternally = None, resourceParameters = None\<rparr>\<rparr>"

definition state0 :: state where
  "state0 = \<lparr>this = config0, disk = disk0, s3_requests = [], console = []\<rparr>"

definition state1 :: state where
  "state1 = modify_elz (\<lambda>elz. elz\<lparr>accountsDeployedExternally := Some []\<rparr>) state0"

text \<open>
  A manifest whose stacks are named \<^verbatim>\<open>Phase1-NetworkStack\<close>, \<^verbatim>\<open>Phase--something\<close>
  and \<^verbatim>\<open>A-Phase2-Net\<close>, the last with a nested-stack resource that names it.
\<close>

definition mapping_phases :: "AccountMapping list" where
  "mapping_phases =
     [\<lparr>AccountMapping.accountId = ''111'', AccountMapping.accountKey = ''management'',
       stacksAndResourceMapList =
         [\<lparr>StackAndResourceMap.stackName = ''Phase1-NetworkStack'',
           StackAndResourceMap.region = ''us-east-1'',
           template = JObj [], resourceMap = [], parentStack = None\<rparr>,
          \<lparr>StackAndResourceMap.stackName = ''Phase--something'',
           StackAndResourceMap.region = ''us-east-1'',
           template = JObj [], resourceMap = [], parentStack = None\<rparr>]\<rparr>,
      \<lparr>AccountMapping.accountId = ''222'', AccountMapping.accountKey = ''operations'',
       stacksAndResourceMapList =
         [\<lparr>StackAndResourceMap.stackName = ''A-Phase2-Net'',
           StackAndResourceMap.region = ''us-west-2'',
           template = JObj [],
           resourceMap =
             [\<lparr>resourceType = ''AWS::CloudFormation::Stack'',
               physicalResourceId = ''arn:aws:cloudformation:us-west-2:222:stack/A-Phase2-Net/77aa'',
               resourceMetadata = JNull\<rparr>],
           parentStack = None\<rparr>]\<rparr>]"

definition state2 :: state where
  "state2 = modify_elz (\<lambda>elz. elz\<lparr>accountsDeployedExternally := Some [''111'', ''222'']\<rparr>) state0"

definition state3 :: state where
  "state3 =
     modify_elz
       (\<lambda>elz. elz\<lparr>accountsDeployedExternally := Some [''111'', ''112'', ''222''],
                  resourceParameters :=
                    Some [''000-eu-west-1'' \<mapsto> [''/ASEA/vpc/id'' \<mapsto> ''vpc-0'']]\<rparr>)
       state0"

definition client0 :: SSMClient where
  "client0 =
     \<lparr>accessKeyId = Some ''AKIA'', secretAccessKey = Some ''secret'',
      sessionToken = Some ''token'', SSMClient.region = ''us-east-1''\<rparr>"

definition credentials0 :: AssumeRoleCommandOutput where
  "credentials0 =
     \<lparr>Credentials =
        Some \<lparr>AccessKeyId = Some ''AKIA'', SecretAccessKey = Some ''secret'',
              SessionToken = Some ''token''\<rparr>\<rparr>"

text \<open>
  The states of one call of \<^verbatim>\<open>loadLzaResources\<close> on \<open>state2\<close>: after the pass over
  account \<^verbatim>\<open>111\<close> has stored its entry, and after the pass over account \<^verbatim>\<open>222\<close>
  has failed to assume the role.
\<close>

definition state2_committed :: state where
  "state2_committed =
     projr (set_resourceParameters ''111-us-east-1''
              (foldl (\<lambda>resources result. resources ++ result) Map.empty
                 (the (all_values (ssmPromises services0 ''ASEA'' client0))))
              (init_resourceParameters state2))"

definition state2_rejected :: state where
  "state2_rejected =
     fst (getCrossAccountCredentials services0 ''222'' ''us-east-1'' ''aws'' ''OrgAccessRole''
            state2_committed)"

section \<open>Properties of the loader\<close>

text \<open>
  C1. Whenever \<^verbatim>\<open>t.parse\<close> accepts a document and returns \<open>D\<close>, each of
  \<^verbatim>\<open>load\<close>, \<^verbatim>\<open>loadFromString\<close> and \<^verbatim>\<open>fromObject\<close> returns an instance, and
  its \<^verbatim>\<open>homeRegion\<close>, \<^verbatim>\<open>managementAccountAccessRole\<close> and
  \<^verbatim>\<open>controlTower.enable\<close> are those of \<open>D\<close>, unchanged.
\<close>

theorem loaders_keep_required_fields:
  assumes "t_parse E raw = Inr D"
  shows "(readFileSync d dir FILENAME = Inr buffer \<and> yaml_load E buffer = Inr raw \<longrightarrow>
            (\<exists>c. load E d dir = Inr c \<and> same_required_fields c D))
       \<and> (yaml_load E content = Inr raw \<longrightarrow>
            (\<exists>c. loadFromString E content = ([], Inr (Some c)) \<and> same_required_fields c D))
       \<and> (\<exists>c. fromObject E raw = Inr c \<and> same_required_fields c D)"
  using assms
  by (simp add: load_def loadFromString_def loadFromString_try_def fromObject_def
      constructor_def Object_assign_def props_of_def same_required_fields_def)

theorem loaders_keep_required_fields_witness:
  "t_parse env0 () = Inr document0
   \<and> (\<exists>c. load env0 disk0 ''/cfg'' = Inr c \<and> same_required_fields c document0)
   \<and> (\<exists>c. loadFromString env0 ''doc'' = ([], Inr (Some c)) \<and> same_required_fields c document0)
   \<and> (\<exists>c. fromObject env0 () = Inr c \<and> same_required_fields c document0)"
proof -
  have p: "t_parse env0 () = Inr document0" by (simp add: env0_def)
  have r: "readFileSync disk0 ''/cfg'' FILENAME = Inr ''doc''"
    by (simp add: disk0_def readFileSync_def FILENAME_def)
  have y: "yaml_load env0 ''doc'' = Inr ()" by (simp add: env0_def)
  show ?thesis
    using loaders_keep_required_fields [OF p, of disk0 "''/cfg''" "''doc''" "''doc''"] p r y by simp
qed

text \<open>
  C6. When \<^verbatim>\<open>yaml.load\<close> or \<^verbatim>\<open>t.parse\<close> throws \<open>e\<close>, \<^verbatim>\<open>loadFromString\<close> writes
  two lines to the console, the second being \<open>e\<close> as a string, and throws
  \<^verbatim>\<open>Error('Could not load global configuration')\<close>, the same error whatever \<open>e\<close> was.
  It never returns \<^verbatim>\<open>undefined\<close>, and it returns an instance exactly when both calls
  succeed.
\<close>

theorem loadFromString_failure_is_generic_throw:
  "(\<forall>e. yaml_load E content = Inl e \<or> (\<exists>raw. yaml_load E content = Inr raw \<and> t_parse E raw = Inl e) \<longrightarrow>
        loadFromString E content =
          ([''Error parsing input, global config undefined'', error_toString e],
           Inl (Error ''Could not load global configuration'')))
   \<and> snd (loadFromString E content) \<noteq> Inr None
   \<and> ((\<exists>c. snd (loadFromString E content) = Inr (Some c)) \<longleftrightarrow>
        (\<exists>raw D. yaml_load E content = Inr raw \<and> t_parse E raw = Inr D))"
  by (auto simp add: loadFromString_def loadFromString_try_def split: sum.splits)

theorem loadFromString_failure_is_generic_throw_witness:
  "loadFromString env_invalid ''doc'' =
     ([''Error parsing input, global config undefined'',
       ''Error: Invalid value undefined supplied to homeRegion''],
      Inl (Error ''Could not load global configuration''))
   \<and> loadFromString env_invalid ''x: ['' =
     ([''Error parsing input, global config undefined'', ''YAMLException: bad indentation''],
      Inl (Error ''Could not load global configuration''))
   \<and> (\<exists>c. snd (loadFromString env0 ''doc'') = Inr (Some c))"
proof -
  have a: "yaml_load env_invalid ''doc'' = Inr ()
           \<and> t_parse env_invalid () = Inl (Error ''Invalid value undefined supplied to homeRegion'')"
    by (simp add: env_invalid_def)
  have b: "yaml_load env_invalid ''x: ['' = Inl (JsError ''YAMLException'' None ''bad indentation'')"
    by (simp add: env_invalid_def)
  have c: "yaml_load env0 ''doc'' = Inr () \<and> t_parse env0 () = Inr document0"
    by (simp add: env0_def)
  from a loadFromString_failure_is_generic_throw [of env_invalid "''doc''"]
  have 1: "loadFromString env_invalid ''doc'' =
     ([''Error parsing input, global config undefined'',
       error_toString (Error ''Invalid value undefined supplied to homeRegion'')],
      Inl (Error ''Could not load global configuration''))" by blast
  from b loadFromString_failure_is_generic_throw [of env_invalid "''x: [''"]
  have 2: "loadFromString env_invalid ''x: ['' =
     ([''Error parsing input, global config undefined'',
       error_toString (JsError ''YAMLException'' None ''bad indentation'')],
      Inl (Error ''Could not load global configuration''))" by blast
  from c loadFromString_failure_is_generic_throw [of env0 "''doc''"]
  have 3: "\<exists>c. snd (loadFromString env0 ''doc'') = Inr (Some c)" by blast
  from 1 2 3 show ?thesis by (simp add: error_toString_def Error_def)
qed

text \<open>
  C7 fails on the code. The class documents \<^verbatim>\<open>enabledRegions\<close> with "Home region
  must be part of this list", and the constructor's own fallback sets the list to the home
  region alone; yet \<^verbatim>\<open>fromObject\<close> accepts a document whose home region is not among
  its enabled regions and returns an instance with the same two fields.
\<close>

theorem fromObject_homeRegion_outside_enabledRegions:
  "fromObject env0 () = Inr (Object_assign GlobalConfig_fields document0)
   \<and> GlobalConfig.homeRegion (Object_assign GlobalConfig_fields document0) = ''ca-central-1''
   \<and> GlobalConfig.enabledRegions (Object_assign GlobalConfig_fields document0)
       = [''us-east-1'', ''us-west-2'']
   \<and> GlobalConfig.homeRegion (Object_assign GlobalConfig_fields document0)
       \<notin> set (GlobalConfig.enabledRegions (Object_assign GlobalConfig_fields document0))"
  by (simp add: fromObject_def env0_def document0_def constructor_def Object_assign_def)

text \<open>
  Where the home region does end up among the enabled regions: always after
  \<^verbatim>\<open>loadFromString\<close>, and after \<^verbatim>\<open>load\<close> or \<^verbatim>\<open>fromObject\<close> exactly when the
  parsed document has it so.
\<close>

lemma homeRegion_enabled_as_in_document:
  "(\<forall>out c. loadFromString E content = (out, Inr (Some c)) \<longrightarrow>
       GlobalConfig.homeRegion c \<in> set (GlobalConfig.enabledRegions c))
   \<and> (\<forall>D c. t_parse E raw = Inr D \<and> fromObject E raw = Inr c \<longrightarrow>
        (GlobalConfig.homeRegion c \<in> set (GlobalConfig.enabledRegions c)
          \<longleftrightarrow> globalConfigType.homeRegion D \<in> set (globalConfigType.enabledRegions D)))
   \<and> (\<forall>buffer D c. readFileSync d dir FILENAME = Inr buffer \<and> yaml_load E buffer = Inr raw
          \<and> t_parse E raw = Inr D \<and> load E d dir = Inr c \<longrightarrow>
        (GlobalConfig.homeRegion c \<in> set (GlobalConfig.enabledRegions c)
          \<longleftrightarrow> globalConfigType.homeRegion D \<in> set (globalConfigType.enabledRegions D)))"
  by (auto simp add: loadFromString_def loadFromString_try_def fromObject_def load_def
      constructor_def Object_assign_def props_of_def split: sum.splits)

lemma homeRegion_enabled_as_in_document_example:
  "(\<exists>c. loadFromString env0 ''doc'' = ([], Inr (Some c))
        \<and> GlobalConfig.homeRegion c \<in> set (GlobalConfig.enabledRegions c))
   \<and> (\<exists>c. fromObject env0 () = Inr c
        \<and> (GlobalConfig.homeRegion c \<in> set (GlobalConfig.enabledRegions c)
          \<longleftrightarrow> globalConfigType.homeRegion document0 \<in> set (globalConfigType.enabledRegions document0)))
   \<and> (\<exists>c. load env0 disk0 ''/cfg'' = Inr c
        \<and> (GlobalConfig.homeRegion c \<in> set (GlobalConfig.enabledRegions c)
          \<longleftrightarrow> globalConfigType.homeRegion document0 \<in> set (globalConfigType.enabledRegions document0)))"
proof -
  have p: "t_parse env0 () = Inr document0" by (simp add: env0_def)
  have r: "readFileSync disk0 ''/cfg'' FILENAME = Inr ''doc''"
    by (simp add: disk0_def readFileSync_def FILENAME_def)
  have y: "yaml_load env0 ''doc'' = Inr ()" by (simp add: env0_def)
  obtain c1 where c1: "loadFromString env0 ''doc'' = ([], Inr (Some c1))"
    by (simp add: loadFromString_def loadFromString_try_def y p)
  obtain c2 where c2: "fromObject env0 () = Inr c2" by (simp add: fromObject_def p)
  obtain c3 where c3: "load env0 disk0 ''/cfg'' = Inr c3" by (simp add: load_def r y p)
  show ?thesis
    using homeRegion_enabled_as_in_document [of env0 "''doc''" "()" disk0 "''/cfg''"] p r y c1 c2 c3
    by auto
qed

text \<open>
  C10. For a document that \<^verbatim>\<open>yaml.load\<close> and \<^verbatim>\<open>t.parse\<close> accept,
  \<^verbatim>\<open>loadFromString\<close> returns an instance that takes \<^verbatim>\<open>homeRegion\<close>,
  \<^verbatim>\<open>managementAccountAccessRole\<close> and \<^verbatim>\<open>controlTower.enable\<close> from the document
  and nothing else: \<^verbatim>\<open>enabledRegions\<close> is the home region alone,
  \<^verbatim>\<open>controlTower.controls\<close> is empty, and every other field has the value of its
  class initialiser.
\<close>

theorem loadFromString_ignores_document_beyond_props:
  assumes "yaml_load E content = Inr raw" and "t_parse E raw = Inr D"
  shows "\<exists>c. loadFromString E content = ([], Inr (Some c))
     \<and> GlobalConfig.homeRegion c = globalConfigType.homeRegion D
     \<and> GlobalConfig.managementAccountAccessRole c = globalConfigType.managementAccountAccessRole D
     \<and> GlobalConfig.enabledRegions c = [globalConfigType.homeRegion D]
     \<and> GlobalConfig.controlTower c =
         \<lparr>ControlTowerConfig.enable = ControlTowerConfig.enable (globalConfigType.controlTower D),
          controls = Some []\<rparr>
     \<and> GlobalConfig.cloudwatchLogRetentionInDays c = 3653
     \<and> GlobalConfig.centralizeCdkBuckets c = None
     \<and> GlobalConfig.cdkOptions c = Some cdkOptionsConfig_new
     \<and> GlobalConfig.terminationProtection c = Some True
     \<and> GlobalConfig.externalLandingZoneResources c = None
     \<and> GlobalConfig.logging c = LoggingConfig_new
     \<and> GlobalConfig.reports c = None
     \<and> GlobalConfig.limits c = None
     \<and> GlobalConfig.ssmParameters c = None
     \<and> GlobalConfig.backup c = None
     \<and> GlobalConfig.snsTopics c = None
     \<and> GlobalConfig.ssmInventory c = None
     \<and> GlobalConfig.tags c = Some []
     \<and> GlobalConfig.acceleratorMetadata c = None
     \<and> GlobalConfig.acceleratorSettings c = None"
  using assms
  by (simp add: loadFromString_def loadFromString_try_def constructor_def props_of_def
      GlobalConfig_fields_def)

theorem loadFromString_ignores_document_beyond_props_witness:
  "globalConfigType.enabledRegions document0 = [''us-east-1'', ''us-west-2'']
   \<and> globalConfigType.tags document0 \<noteq> Absent
   \<and> globalConfigType.terminationProtection document0 = Defined False
   \<and> (\<exists>c. loadFromString env0 ''doc'' = ([], Inr (Some c))
        \<and> GlobalConfig.enabledRegions c = [''ca-central-1'']
        \<and> ControlTowerConfig.controls (GlobalConfig.controlTower c) = Some []
        \<and> GlobalConfig.terminationProtection c = Some True
        \<and> GlobalConfig.tags c = Some []
        \<and> GlobalConfig.backup c = None
        \<and> GlobalConfig.logging c = LoggingConfig_new)"
proof -
  have y: "yaml_load env0 ''doc'' = Inr ()" by (simp add: env0_def)
  have p: "t_parse env0 () = Inr document0" by (simp add: env0_def)
  have d: "globalConfigType.homeRegion document0 = ''ca-central-1''" by (simp add: document0_def)
  from loadFromString_ignores_document_beyond_props [OF y p] d
  have "\<exists>c. loadFromString env0 ''doc'' = ([], Inr (Some c))
        \<and> GlobalConfig.enabledRegions c = [''ca-central-1'']
        \<and> ControlTowerConfig.controls (GlobalConfig.controlTower c) = Some []
        \<and> GlobalConfig.terminationProtection c = Some True
        \<and> GlobalConfig.tags c = Some []
        \<and> GlobalConfig.backup c = None
        \<and> GlobalConfig.logging c = LoggingConfig_new"
    by auto
  then show ?thesis by (simp add: document0_def)
qed

section \<open>Pagination\<close>

lemma fold_store:
  "fold (\<lambda>parameter m. m(Name parameter \<mapsto> Value parameter)) ps m
     = m ++ map_of (rev (map (\<lambda>p. (Name p, Value p)) ps))"
  by (induction ps arbitrary: m) simp_all

lemma store_parameters_entries:
  "store_parameters (Parameters page) m = m ++ map_of (rev (page_entries page))"
  by (simp add: store_parameters_def page_entries_def fold_store split: option.splits)

lemma loop_follows_pages:
  "answers_with S client path token pages \<Longrightarrow>
   getParametersByPath_loop S client path token m
     = Some (Inr (m ++ map_of (rev (concat (map page_entries pages)))))"
proof (induction S client path token pages arbitrary: m rule: answers_with.induct)
  case (1 S client path token)
  then show ?case by simp
next
  case (2 S client path token page)
  then show ?case
    by (subst getParametersByPath_loop.simps)
       (simp add: throttlingBackOff_def request_def store_parameters_entries)
next
  case (3 S client path token page v va)
  from "3.prems" have send: "ssm_send S client (request path token) = Inr page"
    and more: "truthy (GetParametersByPathCommandOutput.NextToken page)"
    and rest: "answers_with S client path (GetParametersByPathCommandOutput.NextToken page) (v # va)"
    by simp_all
  have "getParametersByPath_loop S client path token m
          = getParametersByPath_loop S client path (GetParametersByPathCommandOutput.NextToken page)
              (store_parameters (Parameters page) m)"
    using send more
    by (subst getParametersByPath_loop.simps) (simp add: throttlingBackOff_def request_def)
  also have "\<dots> = Some (Inr (store_parameters (Parameters page) m
                      ++ map_of (rev (concat (map page_entries (v # va))))))"
    using "3.IH" [OF rest] .
  finally show ?case by (simp add: store_parameters_entries)
qed

lemma map_of_rev_last:
  "k \<notin> fst ` set later \<Longrightarrow> map_of (rev (earlier @ (k, v) # later)) k = Some v"
proof -
  assume "k \<notin> fst ` set later"
  then have "map_of (rev later) k = None"
    by (simp add: map_of_eq_None_iff)
  then show ?thesis by (simp add: map_add_def)
qed

text \<open>
  C5. When the parameter store answers a namespace query with a sequence of pages, each
  but the last carrying a \<^verbatim>\<open>NextToken\<close>, \<^verbatim>\<open>getParametersByPath\<close> returns, and
  returns one mapping: its keys are the names on all pages, and a name is mapped to the
  value of its last occurrence.
\<close>

theorem getParametersByPath_merges_pages:
  assumes "answers_with S client path None pages"
  shows "\<exists>parameters. getParametersByPath S path client = Some (Inr parameters)
     \<and> dom parameters = fst ` set (all_entries pages)
     \<and> (\<forall>earlier k v later.
           all_entries pages = earlier @ (k, v) # later \<and> k \<notin> fst ` set later \<longrightarrow>
           parameters k = Some v)"
proof -
  let ?m = "map_of (rev (all_entries pages))"
  from loop_follows_pages [OF assms, of Map.empty]
  have "getParametersByPath S path client = Some (Inr ?m)"
    by (simp add: getParametersByPath_def all_entries_def)
  moreover have "dom ?m = fst ` set (all_entries pages)"
    by (simp add: dom_map_of_conv_image_fst)
  moreover have "\<forall>earlier k v later.
           all_entries pages = earlier @ (k, v) # later \<and> k \<notin> fst ` set later \<longrightarrow> ?m k = Some v"
    using map_of_rev_last by metis
  ultimately show ?thesis by blast
qed

theorem getParametersByPath_merges_pages_witness:
  "answers_with services0 client0 ''/ASEA/iam'' None [page1, page2, page3]
   \<and> (\<exists>parameters.
         getParametersByPath services0 ''/ASEA/iam'' client0 = Some (Inr parameters)
         \<and> dom parameters = {''/ASEA/iam/role'', ''/ASEA/iam/user'', ''/ASEA/iam/group''}
         \<and> parameters ''/ASEA/iam/role'' = Some ''v2'')"
proof -
  have a: "answers_with services0 client0 ''/ASEA/iam'' None [page1, page2, page3]"
    by (simp add: services0_def request_def page1_def page2_def page3_def)
  have e: "all_entries [page1, page2, page3]
             = [(''/ASEA/iam/role'', ''v1''), (''/ASEA/iam/user'', ''u1'')]
               @ (''/ASEA/iam/role'', ''v2'') # [(''/ASEA/iam/group'', ''g3'')]"
    by (simp add: all_entries_def page_entries_def page1_def page2_def page3_def)
  have n: "''/ASEA/iam/role'' \<notin> fst ` set [(''/ASEA/iam/group'', ''g3'')]" by simp
  from getParametersByPath_merges_pages [OF a] obtain parameters where
    r: "getParametersByPath services0 ''/ASEA/iam'' client0 = Some (Inr parameters)"
    and d: "dom parameters = fst ` set (all_entries [page1, page2, page3])"
    and l: "\<forall>earlier k v later.
           all_entries [page1, page2, page3] = earlier @ (k, v) # later \<and> k \<notin> fst ` set later \<longrightarrow>
           parameters k = Some v"
    by blast
  from l e n have "parameters ''/ASEA/iam/role'' = Some ''v2''" by blast
  moreover from d have "dom parameters = {''/ASEA/iam/role'', ''/ASEA/iam/user'', ''/ASEA/iam/group''}"
    unfolding e by auto
  ultimately show ?thesis using a r by blast
qed

section \<open>Nested stacks\<close>

lemma findIndex_first:
  "k < length xs \<Longrightarrow> P (xs ! k) \<Longrightarrow> (\<forall>i<k. \<not> P (xs ! i)) \<Longrightarrow> findIndex P xs = int k"
proof (induction xs arbitrary: k)
  case Nil
  then show ?case by simp
next
  case (Cons x xs)
  show ?case
  proof (cases k)
    case 0
    with Cons.prems show ?thesis by simp
  next
    case (Suc m)
    with Cons.prems have nx: "\<not> P x" by force
    have "\<forall>i<m. \<not> P (xs ! i)"
    proof (intro allI impI)
      fix i assume "i < m"
      then have "Suc i < k" using Suc by simp
      with Cons.prems(3) have "\<not> P ((x # xs) ! Suc i)" by blast
      then show "\<not> P (xs ! i)" by simp
    qed
    moreover from Cons.prems Suc have "m < length xs" "P (xs ! m)" by simp_all
    ultimately have "findIndex P xs = int m" using Cons.IH by blast
    with nx Suc show ?thesis by (simp add: Let_def)
  qed
qed

lemma update_names:
  "map AseaStackInfo.stackName (stacks[i := (stacks ! i)\<lparr>nestedStack := True\<rparr>])
     = map AseaStackInfo.stackName stacks"
proof (cases "i < length stacks")
  case True
  then have "(map AseaStackInfo.stackName stacks)[i := AseaStackInfo.stackName (stacks ! i)]
               = map AseaStackInfo.stackName stacks"
    by (metis list_update_id nth_map)
  then show ?thesis by (simp add: map_update)
next
  case False
  then have "stacks[i := (stacks ! i)\<lparr>nestedStack := True\<rparr>] = stacks"
    by (intro list_update_beyond) simp
  then show ?thesis by (rule arg_cong)
qed

lemma update_keeps:
  "k < length stacks \<Longrightarrow> nestedStack (stacks ! k) \<Longrightarrow>
   nestedStack (stacks[i := (stacks ! i)\<lparr>nestedStack := True\<rparr>] ! k)"
  by (cases "i = k") simp_all

lemma mark_nested_length [simp]: "length (mark_nested pid stacks) = length stacks"
  by (simp add: mark_nested_def Let_def)

lemma mark_nested_names [simp]:
  "map AseaStackInfo.stackName (mark_nested pid stacks) = map AseaStackInfo.stackName stacks"
  by (simp add: mark_nested_def Let_def update_names)

lemma mark_nested_keeps:
  "k < length stacks \<Longrightarrow> nestedStack (stacks ! k) \<Longrightarrow> nestedStack (mark_nested pid stacks ! k)"
  by (simp add: mark_nested_def Let_def update_keeps)

lemma mark_nested_first:
  assumes "first_match pid (map AseaStackInfo.stackName stacks) k"
  shows "nestedStack (mark_nested pid stacks ! k)"
proof -
  let ?P = "\<lambda>stack. string_includes pid ('':stack/'' @ AseaStackInfo.stackName stack @ ''/'')"
  from assms have k: "k < length stacks" and "?P (stacks ! k)" and "\<forall>i<k. \<not> ?P (stacks ! i)"
    by (auto simp add: first_match_def names_in_def)
  then have "findIndex ?P stacks = int k" by (intro findIndex_first)
  with k show ?thesis by (simp add: mark_nested_def Let_def)
qed

lemma fold_mark_nested_length [simp]: "length (fold mark_nested ids stacks) = length stacks"
  by (induction ids arbitrary: stacks) simp_all

lemma fold_mark_nested_names [simp]:
  "map AseaStackInfo.stackName (fold mark_nested ids stacks) = map AseaStackInfo.stackName stacks"
  by (induction ids arbitrary: stacks) simp_all

lemma fold_mark_nested_keeps:
  "k < length stacks \<Longrightarrow> nestedStack (stacks ! k) \<Longrightarrow> nestedStack (fold mark_nested ids stacks ! k)"
  by (induction ids arbitrary: stacks) (simp_all add: mark_nested_keeps)

lemma fold_mark_nested_first:
  "pid \<in> set ids \<Longrightarrow> first_match pid (map AseaStackInfo.stackName stacks) k \<Longrightarrow>
   nestedStack (fold mark_nested ids stacks ! k)"
proof (induction ids arbitrary: stacks)
  case Nil
  then show ?case by simp
next
  case (Cons x ids)
  show ?case
  proof (cases "pid = x")
    case True
    from Cons.prems(2) have k: "k < length stacks" by (simp add: first_match_def)
    from True Cons.prems(2) have "nestedStack (mark_nested x stacks ! k)"
      by (simp add: mark_nested_first)
    with k show ?thesis by (simp add: fold_mark_nested_keeps)
  next
    case False
    with Cons.prems(1) have "pid \<in> set ids" by simp
    moreover from Cons.prems(2)
    have "first_match pid (map AseaStackInfo.stackName (mark_nested x stacks)) k" by simp
    ultimately show ?thesis using Cons.IH by simp
  qed
qed

lemma stacks_loop_shape:
  "stacks_loop S acct stacks d done ids = (d', Inr (done', ids')) \<Longrightarrow>
   \<exists>paths. length paths = length stacks
     \<and> done' = done @ map (\<lambda>(stack, path). stack_info acct stack path) (zip stacks paths)
     \<and> ids' = ids @ concat (map (\<lambda>stack. nested_ids_of (resourceMap stack)) stacks)"
proof (induction stacks arbitrary: d "done" ids)
  case Nil
  then show ?case by simp
next
  case (Cons stack stacks)
  from Cons.prems obtain dir d1 d2 where
    rec: "stacks_loop S acct stacks d2
            (done @ [stack_info acct stack
                       (path_join dir (StackAndResourceMap.stackName stack @ ''.json''))])
            (ids @ nested_ids_of (resourceMap stack)) = (d', Inr (done', ids'))"
    by (auto simp add: Let_def split: sum.splits prod.splits)
  from Cons.IH [OF rec] obtain paths where
    p: "length paths = length stacks"
    and d: "done' = (done @ [stack_info acct stack
                       (path_join dir (StackAndResourceMap.stackName stack @ ''.json''))])
              @ map (\<lambda>(stack, path). stack_info acct stack path) (zip stacks paths)"
    and i: "ids' = (ids @ nested_ids_of (resourceMap stack))
              @ concat (map (\<lambda>stack. nested_ids_of (resourceMap stack)) stacks)"
    by blast
  show ?case
    by (rule exI [of _ "path_join dir (StackAndResourceMap.stackName stack @ ''.json'') # paths"])
       (simp add: p d i)
qed

lemma stack_info_fields [simp]:
  "AseaStackInfo.stackName (stack_info acct stack path) = StackAndResourceMap.stackName stack"
  "nestedStack (stack_info acct stack path) = truthy (parentStack stack)"
  by (simp_all add: stack_info_def)

lemma map_stack_info_names:
  "length paths = length stacks \<Longrightarrow>
   map AseaStackInfo.stackName (map (\<lambda>(stack, path). stack_info acct stack path) (zip stacks paths))
     = map StackAndResourceMap.stackName stacks"
  by (induction stacks paths rule: list_induct2') simp_all

lemma map_stack_info_nth:
  "length paths = length stacks \<Longrightarrow> k < length stacks \<Longrightarrow>
   nestedStack (map (\<lambda>(stack, path). stack_info acct stack path) (zip stacks paths) ! k)
     = truthy (parentStack (stacks ! k))"
  by simp

lemma flat_stacks_Cons [simp]:
  "flat_stacks (acct # accts) = stacksAndResourceMapList acct @ flat_stacks accts"
  by (simp add: flat_stacks_def)

lemma flat_stacks_Nil [simp]: "flat_stacks [] = []"
  by (simp add: flat_stacks_def)

lemma accounts_loop_marks:
  "accounts_loop S accts st done = (st', Inr result) \<Longrightarrow>
     map AseaStackInfo.stackName result
       = map AseaStackInfo.stackName done @ map StackAndResourceMap.stackName (flat_stacks accts)
   \<and> (\<forall>k<length done. nestedStack (done ! k) \<longrightarrow> nestedStack (result ! k))
   \<and> (\<forall>k<length (flat_stacks accts).
         truthy (parentStack (flat_stacks accts ! k)) \<longrightarrow> nestedStack (result ! (length done + k)))
   \<and> (\<forall>j<length accts. \<forall>pid\<in>set (account_nested_ids (accts ! j)). \<forall>k.
         first_match pid
           (map AseaStackInfo.stackName done
              @ map StackAndResourceMap.stackName (flat_stacks (take (Suc j) accts))) k
         \<longrightarrow> nestedStack (result ! k))"
proof (induction accts arbitrary: st "done")
  case Nil
  then show ?case by simp
next
  case (Cons acct accts)
  let ?stacks = "stacksAndResourceMapList acct"
  from Cons.prems obtain c d done1 ids where
    sl: "stacks_loop S acct ?stacks (disk st) done [] = (d, Inr (done1, ids))"
    and rec: "accounts_loop S accts (st\<lparr>this := c, disk := d\<rparr>) (fold mark_nested ids done1)
                = (st', Inr result)"
    by (auto split: sum.splits prod.splits)
  from stacks_loop_shape [OF sl] obtain paths where
    p: "length paths = length ?stacks"
    and d1: "done1 = done @ map (\<lambda>(stack, path). stack_info acct stack path) (zip ?stacks paths)"
    and ids: "ids = account_nested_ids acct"
    by (auto simp add: account_nested_ids_def)
  let ?done2 = "fold mark_nested ids done1"
  have n1: "map AseaStackInfo.stackName done1
              = map AseaStackInfo.stackName done @ map StackAndResourceMap.stackName ?stacks"
    by (simp only: d1 map_append map_stack_info_names [OF p])
  have l1: "length done1 = length done + length ?stacks"
    by (simp add: d1 p)
  from Cons.IH [OF rec]
  have ih_names: "map AseaStackInfo.stackName result
         = map AseaStackInfo.stackName ?done2 @ map StackAndResourceMap.stackName (flat_stacks accts)"
    and ih_keeps: "\<forall>k<length ?done2. nestedStack (?done2 ! k) \<longrightarrow> nestedStack (result ! k)"
    and ih_parent: "\<forall>k<length (flat_stacks accts).
         truthy (parentStack (flat_stacks accts ! k)) \<longrightarrow> nestedStack (result ! (length ?done2 + k))"
    and ih_first: "\<forall>j<length accts. \<forall>pid\<in>set (account_nested_ids (accts ! j)). \<forall>k.
         first_match pid
           (map AseaStackInfo.stackName ?done2
              @ map StackAndResourceMap.stackName (flat_stacks (take (Suc j) accts))) k
         \<longrightarrow> nestedStack (result ! k)"
    by blast+
  have keeps1: "nestedStack (result ! k)" if "k < length done1" "nestedStack (done1 ! k)" for k
  proof -
    from that have "nestedStack (?done2 ! k)" by (simp add: fold_mark_nested_keeps)
    with that(1) ih_keeps show ?thesis by simp
  qed
  have names: "map AseaStackInfo.stackName result
       = map AseaStackInfo.stackName done
           @ map StackAndResourceMap.stackName (flat_stacks (acct # accts))"
    by (simp add: ih_names n1)
  have keeps: "\<forall>k<length done. nestedStack (done ! k) \<longrightarrow> nestedStack (result ! k)"
  proof (intro allI impI)
    fix k assume k: "k < length done" and m: "nestedStack (done ! k)"
    from k have "done1 ! k = done ! k" by (simp add: d1 nth_append)
    with k m l1 show "nestedStack (result ! k)" by (intro keeps1) simp_all
  qed
  have parent: "\<forall>k<length (flat_stacks (acct # accts)).
         truthy (parentStack (flat_stacks (acct # accts) ! k))
         \<longrightarrow> nestedStack (result ! (length done + k))"
  proof (intro allI impI)
    fix k assume k: "k < length (flat_stacks (acct # accts))"
      and t: "truthy (parentStack (flat_stacks (acct # accts) ! k))"
    show "nestedStack (result ! (length done + k))"
    proof (cases "k < length ?stacks")
      case True
      with t have "truthy (parentStack (?stacks ! k))" by (simp add: nth_append)
      with True p have "nestedStack (done1 ! (length done + k))"
        by (simp add: d1 nth_append)
      with True l1 show ?thesis by (intro keeps1) simp_all
    next
      case False
      define k' where "k' = k - length ?stacks"
      from False k have k': "k' < length (flat_stacks accts)" by (simp add: k'_def)
      from False t have "truthy (parentStack (flat_stacks accts ! k'))"
        by (simp add: nth_append k'_def)
      with k' ih_parent have "nestedStack (result ! (length ?done2 + k'))" by blast
      moreover from False have "length ?done2 + k' = length done + k" by (simp add: l1 k'_def)
      ultimately show ?thesis by simp
    qed
  qed
  have first: "\<forall>j<length (acct # accts). \<forall>pid\<in>set (account_nested_ids ((acct # accts) ! j)). \<forall>k.
         first_match pid
           (map AseaStackInfo.stackName done
              @ map StackAndResourceMap.stackName (flat_stacks (take (Suc j) (acct # accts)))) k
         \<longrightarrow> nestedStack (result ! k)"
  proof (intro allI impI ballI)
    fix j pid k
    assume j: "j < length (acct # accts)"
      and pid: "pid \<in> set (account_nested_ids ((acct # accts) ! j))"
      and fm: "first_match pid
           (map AseaStackInfo.stackName done
              @ map StackAndResourceMap.stackName (flat_stacks (take (Suc j) (acct # accts)))) k"
    show "nestedStack (result ! k)"
    proof (cases j)
      case 0
      with fm have fm1: "first_match pid (map AseaStackInfo.stackName done1) k"
        by (simp add: n1)
      then have k: "k < length done1" by (simp add: first_match_def)
      from 0 pid have "pid \<in> set ids" by (simp add: ids)
      then have "nestedStack (?done2 ! k)" using fm1 by (rule fold_mark_nested_first)
      with k ih_keeps show ?thesis by simp
    next
      case (Suc j')
      with j have j': "j' < length accts" by simp
      from Suc pid have pid': "pid \<in> set (account_nested_ids (accts ! j'))" by simp
      from Suc fm have "first_match pid
           (map AseaStackInfo.stackName ?done2
              @ map StackAndResourceMap.stackName (flat_stacks (take (Suc j') accts))) k"
        by (simp add: n1)
      with j' pid' ih_first show ?thesis by blast
    qed
  qed
  from names keeps parent first show ?case by blast
qed

text \<open>
  C9, as stated, fails. Account \<^verbatim>\<open>111\<close> collects an identifier in which
  \<^verbatim>\<open>:stack/Net/\<close> occurs and has two stacks named \<^verbatim>\<open>Net\<close>; the second descriptor
  is left unmarked.
\<close>

theorem second_Net_stack_left_unmarked:
  "\<not> isl (snd (setTemplateMap services0 (Some mapping0) state1))
   \<and> nested_id \<in> set (account_nested_ids (mapping0 ! 0))
   \<and> AseaStackInfo.accountId (projr (snd (setTemplateMap services0 (Some mapping0) state1)) ! 1)
       = AccountMapping.accountId (mapping0 ! 0)
   \<and> names_in nested_id
        (AseaStackInfo.stackName (projr (snd (setTemplateMap services0 (Some mapping0) state1)) ! 1))
   \<and> \<not> nestedStack (projr (snd (setTemplateMap services0 (Some mapping0) state1)) ! 1)"
  by code_simp

text \<open>
  C9, amended. The descriptors come out in the order of the manifest. A stack with a
  truthy \<^verbatim>\<open>parentStack\<close> is marked nested. For every identifier collected for an
  account, the first descriptor pushed so far, earlier accounts included, whose
  \<^verbatim>\<open>:stack/<stackName>/\<close> occurs in the identifier is marked nested.
\<close>

theorem setTemplateMap_marks_first_match:
  assumes "setTemplateMap S (Some accts) st = (st', Inr aseaStacks)"
  shows "map AseaStackInfo.stackName aseaStacks
           = map StackAndResourceMap.stackName (flat_stacks accts)
     \<and> (\<forall>k<length (flat_stacks accts).
           truthy (parentStack (flat_stacks accts ! k)) \<longrightarrow> nestedStack (aseaStacks ! k))
     \<and> (\<forall>j<length accts. \<forall>pid\<in>set (account_nested_ids (accts ! j)). \<forall>k.
           first_match pid
             (map StackAndResourceMap.stackName (flat_stacks (take (Suc j) accts))) k
           \<longrightarrow> nestedStack (aseaStacks ! k))"
proof -
  from assms have "accounts_loop S accts st [] = (st', Inr aseaStacks)"
    by (simp add: setTemplateMap_def)
  from accounts_loop_marks [OF this] show ?thesis by simp
qed

theorem setTemplateMap_marks_first_match_witness:
  "\<exists>st' aseaStacks.
     setTemplateMap services0 (Some mapping0) state1 = (st', Inr aseaStacks)
     \<and> map AseaStackInfo.stackName aseaStacks = [''Net'', ''Net'', ''Phase1'', ''Sub'']
     \<and> nestedStack (aseaStacks ! 0)
     \<and> nestedStack (aseaStacks ! 3)"
proof -
  have "case setTemplateMap services0 (Some mapping0) state1 of
          (st, Inl e) \<Rightarrow> False | (st, Inr aseaStacks) \<Rightarrow> True"
    by code_simp
  then obtain st' r where eq: "setTemplateMap services0 (Some mapping0) state1 = (st', Inr r)"
    by (auto split: prod.splits sum.splits)
  have flat: "map StackAndResourceMap.stackName (flat_stacks mapping0)
                = [''Net'', ''Net'', ''Phase1'', ''Sub'']"
    by (simp add: flat_stacks_def mapping0_def)
  have parent: "3 < length (flat_stacks mapping0) \<and> truthy (parentStack (flat_stacks mapping0 ! 3))"
    by (simp add: flat_stacks_def mapping0_def)
  have pid: "0 < length mapping0 \<and> nested_id \<in> set (account_nested_ids (mapping0 ! 0))"
    by (simp add: account_nested_ids_def mapping0_def nested_ids_of_def)
  have "names_in nested_id ''Net''" by code_simp
  then have fm: "first_match nested_id
          (map StackAndResourceMap.stackName (flat_stacks (take (Suc 0) mapping0))) 0"
    by (simp add: first_match_def flat_stacks_def mapping0_def)
  from setTemplateMap_marks_first_match [OF eq] flat parent pid fm
  have "map AseaStackInfo.stackName r = [''Net'', ''Net'', ''Phase1'', ''Sub'']
        \<and> nestedStack (r ! 0) \<and> nestedStack (r ! 3)"
    by (metis One_nat_def)
  with eq show ?thesis by (intro exI [of _ st'] exI [of _ r]) simp
qed

section \<open>Phase derivation\<close>

lemma indexOf_first:
  "n \<le> length s \<Longrightarrow> take (length p) (drop n s) = p \<Longrightarrow>
   (\<forall>i<n. take (length p) (drop i s) \<noteq> p) \<Longrightarrow> indexOf s p = int n"
proof (induction s arbitrary: n)
  case Nil
  then show ?case by simp
next
  case (Cons c s)
  show ?case
  proof (cases n)
    case 0
    with Cons.prems show ?thesis by simp
  next
    case (Suc m)
    from Cons.prems(3) Suc have h0: "take (length p) (c # s) \<noteq> p" by force
    have "\<forall>i<m. take (length p) (drop i s) \<noteq> p"
    proof (intro allI impI)
      fix i assume "i < m"
      then have "Suc i < n" using Suc by simp
      with Cons.prems(3) have "take (length p) (drop (Suc i) (c # s)) \<noteq> p" by blast
      then show "take (length p) (drop i s) \<noteq> p" by simp
    qed
    moreover from Cons.prems Suc have "m \<le> length s" "take (length p) (drop m s) = p" by simp_all
    ultimately have "indexOf s p = int m" using Cons.IH by blast
    with h0 Suc show ?thesis by (simp add: Let_def)
  qed
qed

text \<open>
  The derivation on a name: the character five places after the first occurrence of
  \<^verbatim>\<open>Phase\<close>.
\<close>

lemma derive_phase_after_Phase:
  "derive_phase ''Phase1-NetworkStack'' = Num 1
   \<and> derive_phase ''Phase--something'' = Num (-1)
   \<and> (\<forall>pre c rest.
        (\<forall>i<length pre. take 5 (drop i (pre @ ''Phase'' @ c # rest)) \<noteq> ''Phase'') \<longrightarrow>
        derive_phase (pre @ ''Phase'' @ c # rest) =
          (if c = CHR ''-'' then Num (-1) else Number (Some c)))"
proof (intro conjI allI impI)
  show "derive_phase ''Phase1-NetworkStack'' = Num 1"
    by (simp add: derive_phase_def charAt_def Number_def Let_def)
  show "derive_phase ''Phase--something'' = Num (-1)"
    by (simp add: derive_phase_def charAt_def Number_def Let_def)
next
  fix pre :: string and c :: char and rest :: string
  let ?s = "pre @ ''Phase'' @ c # rest"
  assume first: "\<forall>i<length pre. take 5 (drop i ?s) \<noteq> ''Phase''"
  have l5: "length ''Phase'' = 5" by simp
  have "indexOf ?s ''Phase'' = int (length pre)"
  proof (rule indexOf_first)
    show "length pre \<le> length ?s" by simp
    show "take (length ''Phase'') (drop (length pre) ?s) = ''Phase''" by simp
    show "\<forall>i<length pre. take (length ''Phase'') (drop i ?s) \<noteq> ''Phase''"
      unfolding l5 by (rule first)
  qed
  moreover have "charAt ?s (int (length pre) + 5) = Some c"
    by (simp add: charAt_def nat_add_distrib nth_append)
  ultimately show "derive_phase ?s = (if c = CHR ''-'' then Num (-1) else Number (Some c))"
    by (simp add: derive_phase_def Let_def)
qed

text \<open>Marking a descriptor as nested leaves every phase as it is.\<close>

lemma update_phases:
  "map phase (stacks[i := (stacks ! i)\<lparr>nestedStack := True\<rparr>]) = map phase stacks"
proof (cases "i < length stacks")
  case True
  then have "(map phase stacks)[i := phase (stacks ! i)] = map phase stacks"
    by (metis list_update_id nth_map)
  then show ?thesis by (simp add: map_update)
next
  case False
  then have "stacks[i := (stacks ! i)\<lparr>nestedStack := True\<rparr>] = stacks"
    by (intro list_update_beyond) simp
  then show ?thesis by (rule arg_cong)
qed

lemma mark_nested_phases [simp]:
  "map phase (mark_nested pid stacks) = map phase stacks"
  by (simp add: mark_nested_def Let_def update_phases)

lemma fold_mark_nested_phases [simp]:
  "map phase (fold mark_nested ids stacks) = map phase stacks"
  by (induction ids arbitrary: stacks) simp_all

lemma stack_info_phase [simp]:
  "phase (stack_info acct stack path) = derive_phase (StackAndResourceMap.stackName stack)"
  by (simp add: stack_info_def)

lemma map_stack_info_phases:
  "length paths = length stacks \<Longrightarrow>
   map phase (map (\<lambda>(stack, path). stack_info acct stack path) (zip stacks paths))
     = map (\<lambda>stack. derive_phase (StackAndResourceMap.stackName stack)) stacks"
  by (induction stacks paths rule: list_induct2') simp_all

lemma accounts_loop_phases:
  "accounts_loop S accts st done = (st', Inr result) \<Longrightarrow>
     map AseaStackInfo.stackName result
       = map AseaStackInfo.stackName done @ map StackAndResourceMap.stackName (flat_stacks accts)
   \<and> map phase result
       = map phase done
           @ map (\<lambda>stack. derive_phase (StackAndResourceMap.stackName stack)) (flat_stacks accts)"
proof (induction accts arbitrary: st "done")
  case Nil
  then show ?case by simp
next
  case (Cons acct accts)
  let ?stacks = "stacksAndResourceMapList acct"
  from Cons.prems obtain c d done1 ids where
    sl: "stacks_loop S acct ?stacks (disk st) done [] = (d, Inr (done1, ids))"
    and rec: "accounts_loop S accts (st\<lparr>this := c, disk := d\<rparr>) (fold mark_nested ids done1)
                = (st', Inr result)"
    by (auto split: sum.splits prod.splits)
  from stacks_loop_shape [OF sl] obtain paths where
    p: "length paths = length ?stacks"
    and d1: "done1 = done @ map (\<lambda>(stack, path). stack_info acct stack path) (zip ?stacks paths)"
    by blast
  from Cons.IH [OF rec] have
    n: "map AseaStackInfo.stackName result
          = map AseaStackInfo.stackName done1 @ map StackAndResourceMap.stackName (flat_stacks accts)"
    and ph: "map phase result
          = map phase done1
              @ map (\<lambda>stack. derive_phase (StackAndResourceMap.stackName stack)) (flat_stacks accts)"
    by simp_all
  from n d1 map_stack_info_names [OF p, of acct] have
    "map AseaStackInfo.stackName result
       = map AseaStackInfo.stackName done
           @ map StackAndResourceMap.stackName (flat_stacks (acct # accts))"
    by simp
  moreover from ph d1 map_stack_info_phases [OF p, of acct] have
    "map phase result
       = map phase done
           @ map (\<lambda>stack. derive_phase (StackAndResourceMap.stackName stack))
               (flat_stacks (acct # accts))"
    by simp
  ultimately show ?case by (rule conjI)
qed

text \<open>
  C4. Every descriptor \<^verbatim>\<open>setTemplateMap\<close> returns carries the name of its stack and
  the phase derived from that name: \<^verbatim>\<open>1\<close> for \<^verbatim>\<open>Phase1-NetworkStack\<close> and \<^verbatim>\<open>-1\<close>
  for \<^verbatim>\<open>Phase--something\<close>. In general, for a stack name in which \<^verbatim>\<open>Phase\<close> first
  occurs right after \<open>pre\<close> and is followed by the character \<open>c\<close>, the phase is read
  from \<open>c\<close>: \<^verbatim>\<open>-1\<close> for a hyphen, \<^verbatim>\<open>Number(c)\<close> otherwise. There is one descriptor
  per stack of the manifest, in the manifest's order.
\<close>

theorem setTemplateMap_phase_is_character_after_Phase:
  assumes "setTemplateMap S (Some accts) st = (st', Inr aseaStacks)"
  shows "length aseaStacks = length (flat_stacks accts)
     \<and> (\<forall>k<length (flat_stacks accts).
           AseaStackInfo.stackName (aseaStacks ! k)
             = StackAndResourceMap.stackName (flat_stacks accts ! k)
           \<and> (AseaStackInfo.stackName (aseaStacks ! k) = ''Phase1-NetworkStack''
                \<longrightarrow> phase (aseaStacks ! k) = Num 1)
           \<and> (AseaStackInfo.stackName (aseaStacks ! k) = ''Phase--something''
                \<longrightarrow> phase (aseaStacks ! k) = Num (-1))
           \<and> (\<forall>pre c rest.
                 AseaStackInfo.stackName (aseaStacks ! k) = pre @ ''Phase'' @ c # rest
                 \<and> (\<forall>i<length pre. take 5 (drop i (pre @ ''Phase'' @ c # rest)) \<noteq> ''Phase'')
                 \<longrightarrow> phase (aseaStacks ! k)
                       = (if c = CHR ''-'' then Num (-1) else Number (Some c))))"
proof -
  from assms have "accounts_loop S accts st [] = (st', Inr aseaStacks)"
    by (simp add: setTemplateMap_def)
  from accounts_loop_phases [OF this] have
    n: "map AseaStackInfo.stackName aseaStacks
          = map StackAndResourceMap.stackName (flat_stacks accts)"
    and ph: "map phase aseaStacks
          = map (\<lambda>stack. derive_phase (StackAndResourceMap.stackName stack)) (flat_stacks accts)"
    by simp_all
  from n have len: "length aseaStacks = length (flat_stacks accts)"
    by (rule map_eq_imp_length_eq)
  have "\<forall>k<length (flat_stacks accts).
           AseaStackInfo.stackName (aseaStacks ! k)
             = StackAndResourceMap.stackName (flat_stacks accts ! k)
           \<and> (AseaStackInfo.stackName (aseaStacks ! k) = ''Phase1-NetworkStack''
                \<longrightarrow> phase (aseaStacks ! k) = Num 1)
           \<and> (AseaStackInfo.stackName (aseaStacks ! k) = ''Phase--something''
                \<longrightarrow> phase (aseaStacks ! k) = Num (-1))
           \<and> (\<forall>pre c rest.
                 AseaStackInfo.stackName (aseaStacks ! k) = pre @ ''Phase'' @ c # rest
                 \<and> (\<forall>i<length pre. take 5 (drop i (pre @ ''Phase'' @ c # rest)) \<noteq> ''Phase'')
                 \<longrightarrow> phase (aseaStacks ! k)
                       = (if c = CHR ''-'' then Num (-1) else Number (Some c)))"
  proof (intro allI impI)
    fix k assume k: "k < length (flat_stacks accts)"
    let ?name = "AseaStackInfo.stackName (aseaStacks ! k)"
    from k len have k': "k < length aseaStacks" by simp
    have "?name = map AseaStackInfo.stackName aseaStacks ! k"
      using k' by simp
    also have "\<dots> = StackAndResourceMap.stackName (flat_stacks accts ! k)"
      unfolding n using k by simp
    finally have name: "?name = StackAndResourceMap.stackName (flat_stacks accts ! k)" .
    have "phase (aseaStacks ! k) = map phase aseaStacks ! k"
      using k' by simp
    also have "\<dots> = derive_phase (StackAndResourceMap.stackName (flat_stacks accts ! k))"
      unfolding ph using k by simp
    finally have derived: "phase (aseaStacks ! k) = derive_phase ?name"
      unfolding name .
    note facts = derive_phase_after_Phase
    have 1: "?name = ''Phase1-NetworkStack'' \<longrightarrow> phase (aseaStacks ! k) = Num 1"
    proof
      assume "?name = ''Phase1-NetworkStack''"
      with derived have "phase (aseaStacks ! k) = derive_phase ''Phase1-NetworkStack''"
        by (simp only:)
      also from facts have "\<dots> = Num 1" by (rule conjunct1)
      finally show "phase (aseaStacks ! k) = Num 1" .
    qed
    have 2: "?name = ''Phase--something'' \<longrightarrow> phase (aseaStacks ! k) = Num (-1)"
    proof
      assume "?name = ''Phase--something''"
      with derived have "phase (aseaStacks ! k) = derive_phase ''Phase--something''"
        by (simp only:)
      also from facts have "\<dots> = Num (-1)" by (elim conjE)
      finally show "phase (aseaStacks ! k) = Num (-1)" .
    qed
    have 3: "\<forall>pre c rest.
                 ?name = pre @ ''Phase'' @ c # rest
                 \<and> (\<forall>i<length pre. take 5 (drop i (pre @ ''Phase'' @ c # rest)) \<noteq> ''Phase'')
                 \<longrightarrow> phase (aseaStacks ! k)
                       = (if c = CHR ''-'' then Num (-1) else Number (Some c))"
    proof (intro allI impI, elim conjE)
      fix pre :: string and c :: char and rest :: string
      assume eq: "?name = pre @ ''Phase'' @ c # rest"
        and first: "\<forall>i<length pre. take 5 (drop i (pre @ ''Phase'' @ c # rest)) \<noteq> ''Phase''"
      from facts have "\<forall>pre c rest.
          (\<forall>i<length pre. take 5 (drop i (pre @ ''Phase'' @ c # rest)) \<noteq> ''Phase'') \<longrightarrow>
          derive_phase (pre @ ''Phase'' @ c # rest) =
            (if c = CHR ''-'' then Num (-1) else Number (Some c))"
        by (elim conjE)
      from this [rule_format, OF first [rule_format]]
      have "derive_phase (pre @ ''Phase'' @ c # rest)
              = (if c = CHR ''-'' then Num (-1) else Number (Some c))" .
      with derived eq show "phase (aseaStacks ! k)
              = (if c = CHR ''-'' then Num (-1) else Number (Some c))"
        by (simp only:)
    qed
    from name 1 2 3 show "?name = StackAndResourceMap.stackName (flat_stacks accts ! k)
           \<and> (?name = ''Phase1-NetworkStack'' \<longrightarrow> phase (aseaStacks ! k) = Num 1)
           \<and> (?name = ''Phase--something'' \<longrightarrow> phase (aseaStacks ! k) = Num (-1))
           \<and> (\<forall>pre c rest.
                 ?name = pre @ ''Phase'' @ c # rest
                 \<and> (\<forall>i<length pre. take 5 (drop i (pre @ ''Phase'' @ c # rest)) \<noteq> ''Phase'')
                 \<longrightarrow> phase (aseaStacks ! k)
                       = (if c = CHR ''-'' then Num (-1) else Number (Some c)))"
      by (intro conjI)
  qed
  with len show ?thesis by (rule conjI)
qed

theorem setTemplateMap_phase_is_character_after_Phase_witness:
  "\<exists>st' aseaStacks.
     setTemplateMap services0 (Some mapping_phases) state1 = (st', Inr aseaStacks)
     \<and> length aseaStacks = 3
     \<and> AseaStackInfo.stackName (aseaStacks ! 0) = ''Phase1-NetworkStack''
     \<and> phase (aseaStacks ! 0) = Num 1
     \<and> AseaStackInfo.stackName (aseaStacks ! 1) = ''Phase--something''
     \<and> phase (aseaStacks ! 1) = Num (-1)
     \<and> AseaStackInfo.stackName (aseaStacks ! 2) = ''A-Phase2-Net''
     \<and> take 5 (drop 0 ''A-Phase2-Net'') \<noteq> ''Phase''
     \<and> take 5 (drop 1 ''A-Phase2-Net'') \<noteq> ''Phase''
     \<and> phase (aseaStacks ! 2) = Num 2"
proof -
  have "case setTemplateMap services0 (Some mapping_phases) state1 of
          (st, Inl e) \<Rightarrow> False | (st, Inr aseaStacks) \<Rightarrow> True"
    by code_simp
  then obtain st' r where eq: "setTemplateMap services0 (Some mapping_phases) state1 = (st', Inr r)"
    by (auto split: prod.splits sum.splits)
  have len: "length (flat_stacks mapping_phases) = 3"
    by (simp add: flat_stacks_def mapping_phases_def)
  have nth: "StackAndResourceMap.stackName (flat_stacks mapping_phases ! 0) = ''Phase1-NetworkStack''"
    "StackAndResourceMap.stackName (flat_stacks mapping_phases ! 1) = ''Phase--something''"
    "StackAndResourceMap.stackName (flat_stacks mapping_phases ! 2) = ''A-Phase2-Net''"
    by (simp_all add: flat_stacks_def mapping_phases_def)
  have k0: "0 < length (flat_stacks mapping_phases)" and k1: "1 < length (flat_stacks mapping_phases)"
    and k2: "2 < length (flat_stacks mapping_phases)"
    unfolding len by simp_all
  note inst = setTemplateMap_phase_is_character_after_Phase [OF eq]
  from inst have "length r = length (flat_stacks mapping_phases)" by (rule conjunct1)
  then have rlen: "length r = 3" unfolding len .
  note a0 = inst [THEN conjunct2, rule_format, OF k0]
    and a1 = inst [THEN conjunct2, rule_format, OF k1]
    and a2 = inst [THEN conjunct2, rule_format, OF k2]
  from a0 have "AseaStackInfo.stackName (r ! 0)
                  = StackAndResourceMap.stackName (flat_stacks mapping_phases ! 0)"
    by (rule conjunct1)
  then have n0: "AseaStackInfo.stackName (r ! 0) = ''Phase1-NetworkStack''" unfolding nth(1) .
  from a1 have "AseaStackInfo.stackName (r ! 1)
                  = StackAndResourceMap.stackName (flat_stacks mapping_phases ! 1)"
    by (rule conjunct1)
  then have n1: "AseaStackInfo.stackName (r ! 1) = ''Phase--something''" unfolding nth(2) .
  from a2 have "AseaStackInfo.stackName (r ! 2)
                  = StackAndResourceMap.stackName (flat_stacks mapping_phases ! 2)"
    by (rule conjunct1)
  then have n2: "AseaStackInfo.stackName (r ! 2) = ''A-Phase2-Net''" unfolding nth(3) .
  then have n2': "AseaStackInfo.stackName (r ! 2) = ''A-'' @ ''Phase'' @ CHR ''2'' # ''-Net''"
    by simp
  have first: "\<forall>i<length ''A-''. take 5 (drop i (''A-'' @ ''Phase'' @ CHR ''2'' # ''-Net'')) \<noteq> ''Phase''"
    by (simp add: less_Suc_eq)
  from a0 have "AseaStackInfo.stackName (r ! 0) = ''Phase1-NetworkStack''
                  \<longrightarrow> phase (r ! 0) = Num 1"
    by (elim conjE)
  from this [rule_format, OF n0] have p0: "phase (r ! 0) = Num 1" .
  from a1 have "AseaStackInfo.stackName (r ! 1) = ''Phase--something''
                  \<longrightarrow> phase (r ! 1) = Num (-1)"
    by (elim conjE)
  from this [rule_format, OF n1] have p1: "phase (r ! 1) = Num (-1)" .
  from a2 have "\<forall>pre c rest.
                 AseaStackInfo.stackName (r ! 2) = pre @ ''Phase'' @ c # rest
                 \<and> (\<forall>i<length pre. take 5 (drop i (pre @ ''Phase'' @ c # rest)) \<noteq> ''Phase'')
                 \<longrightarrow> phase (r ! 2)
                       = (if c = CHR ''-'' then Num (-1) else Number (Some c))"
    by (elim conjE)
  from this [rule_format, of "''A-''" "CHR ''2''" "''-Net''", OF conjI [OF n2' first]]
  have p2: "phase (r ! 2) = Num 2" by (simp add: Number_def)
  have t: "take 5 (drop 0 ''A-Phase2-Net'') \<noteq> ''Phase''"
    "take 5 (drop 1 ''A-Phase2-Net'') \<noteq> ''Phase''"
    by simp_all
  from eq rlen n0 p0 n1 p1 n2 t p2 show ?thesis
    by (intro exI [of _ st'] exI [of _ r] conjI)
qed

section \<open>Loading the external mapping\<close>

lemma dropWhile_head: "dropWhile P xs = y # ys \<Longrightarrow> \<not> P y"
  by (metis hd_dropWhile list.distinct(1) list.sel(1))

lemma mkdtemp_fresh:
  assumes "mkdtemp d p = Inr (dir, d')"
  shows "dirs d dir = None" and "dirs d' = (dirs d)(dir \<mapsto> Map.empty)"
proof -
  from assms obtain suffix rest where
    dw: "dropWhile (\<lambda>suffix. dirs d (p @ suffix) \<noteq> None) (tmpnames d) = suffix # rest"
    and dir: "dir = p @ suffix"
    and d': "d' = d\<lparr>dirs := (dirs d)(p @ suffix \<mapsto> Map.empty), tmpnames := rest\<rparr>"
    by (auto simp add: mkdtemp_def split: list.splits)
  from dropWhile_head [OF dw] dir show "dirs d dir = None" by simp
  from dir d' show "dirs d' = (dirs d)(dir \<mapsto> Map.empty)" by simp
qed

lemma mkdtemp_directory_is_empty:
  "mkdtemp d p = Inr (dir, d') \<Longrightarrow> \<not> existsSync d' dir file"
  by (simp add: existsSync_def mkdtemp_fresh(2))

lemma mkdtemp_keeps_dirs:
  "mkdtemp d p = Inr (dir, d') \<Longrightarrow> dirs d x \<noteq> None \<Longrightarrow> dirs d' x \<noteq> None"
  by (simp add: mkdtemp_fresh(2))

lemma writeFileSync_keeps_dirs:
  "writeFileSync d dir file content = Inr d' \<Longrightarrow> dirs d x \<noteq> None \<Longrightarrow> dirs d' x \<noteq> None"
  by (auto simp add: writeFileSync_def split: option.splits)

lemma writeFileSync_succeeds:
  "dirs d dir \<noteq> None \<Longrightarrow> \<exists>d'. writeFileSync d dir file content = Inr d'"
  by (auto simp add: writeFileSync_def split: option.splits)

lemma stacks_loop_keeps_dirs:
  "stacks_loop S acct stacks d done ids = (d', r) \<Longrightarrow> dirs d x \<noteq> None \<Longrightarrow> dirs d' x \<noteq> None"
proof (induction stacks arbitrary: d "done" ids)
  case Nil
  then show ?case by simp
next
  case (Cons stack stacks)
  show ?case
  proof (cases "mkdtemp d (path_join (os_tmpdir S) ''asea-templates-'')")
    case (Inl e)
    with Cons.prems show ?thesis by simp
  next
    case (Inr made)
    obtain dir d1 where made: "made = (dir, d1)" by (cases made)
    from Inr made Cons.prems(2) have k1: "dirs d1 x \<noteq> None" by (simp add: mkdtemp_keeps_dirs)
    show ?thesis
    proof (cases "writeFileSync d1 dir (StackAndResourceMap.stackName stack @ ''.json'')
                    (JSON_stringify S (template stack))")
      case (Inl e)
      with Inr made Cons.prems(1) k1 show ?thesis by (simp add: Let_def)
    next
      case w: (Inr d2)
      from w k1 have k2: "dirs d2 x \<noteq> None" by (rule writeFileSync_keeps_dirs)
      from Inr made w Cons.prems(1) have
        "stacks_loop S acct stacks d2
           (done @ [stack_info acct stack
                      (path_join dir (StackAndResourceMap.stackName stack @ ''.json''))])
           (ids @ nested_ids_of (resourceMap stack)) = (d', r)"
        by (simp add: Let_def)
      from Cons.IH [OF this k2] show ?thesis .
    qed
  qed
qed

lemma push_account_frame:
  "push_account c a = Inr c' \<Longrightarrow>
   import_bucket c' = import_bucket c \<and> GlobalConfig.homeRegion c' = GlobalConfig.homeRegion c"
  by (auto simp add: push_account_def import_bucket_def split: option.splits)

lemma accounts_loop_frame:
  "accounts_loop S accts st done = (st', r) \<Longrightarrow>
     s3_requests st' = s3_requests st \<and> console st' = console st
     \<and> import_bucket (this st') = import_bucket (this st)
     \<and> GlobalConfig.homeRegion (this st') = GlobalConfig.homeRegion (this st)
     \<and> (dirs (disk st) x \<noteq> None \<longrightarrow> dirs (disk st') x \<noteq> None)"
proof (induction accts arbitrary: st "done")
  case Nil
  then show ?case by auto
next
  case (Cons acct accts)
  show ?case
  proof (cases "push_account (this st) (AccountMapping.accountId acct)")
    case (Inl e)
    with Cons.prems show ?thesis by auto
  next
    case (Inr c)
    note pf = push_account_frame [OF Inr]
    obtain d res where sl:
      "stacks_loop S acct (stacksAndResourceMapList acct) (disk st) done [] = (d, res)"
      by (cases "stacks_loop S acct (stacksAndResourceMapList acct) (disk st) done []")
    have kd: "dirs (disk st) x \<noteq> None \<longrightarrow> dirs d x \<noteq> None"
      using stacks_loop_keeps_dirs [OF sl] by blast
    show ?thesis
    proof (cases res)
      case (Inl e)
      with Inr sl Cons.prems have "st' = st\<lparr>this := c, disk := d\<rparr>" by simp
      with pf kd show ?thesis by simp
    next
      case r: (Inr pair)
      obtain done1 ids where pair: "pair = (done1, ids)" by (cases pair)
      from Inr sl r pair Cons.prems have
        "accounts_loop S accts (st\<lparr>this := c, disk := d\<rparr>) (fold mark_nested ids done1) = (st', r)"
        by simp
      from Cons.IH [OF this] pf kd show ?thesis by simp
    qed
  qed
qed

lemma setTemplateMap_frame:
  "setTemplateMap S m st = (st', r) \<Longrightarrow>
     s3_requests st' = s3_requests st \<and> console st' = console st
     \<and> import_bucket (this st') = import_bucket (this st)
     \<and> GlobalConfig.homeRegion (this st') = GlobalConfig.homeRegion (this st)
     \<and> (dirs (disk st) x \<noteq> None \<longrightarrow> dirs (disk st') x \<noteq> None)"
  by (cases m) (auto simp add: setTemplateMap_def dest: accounts_loop_frame [where x = x])

lemma modify_elz_frame [simp]:
  "s3_requests (modify_elz f st) = s3_requests st"
  "console (modify_elz f st) = console st"
  "disk (modify_elz f st) = disk st"
  "GlobalConfig.homeRegion (this (modify_elz f st)) = GlobalConfig.homeRegion (this st)"
  by (simp_all add: modify_elz_def)

lemma import_bucket_modify_elz [simp]:
  "import_bucket (this (modify_elz (\<lambda>elz. elz\<lparr>templateMap := v1\<rparr>) st)) = import_bucket (this st)"
  "import_bucket (this (modify_elz (\<lambda>elz. elz\<lparr>resourceList := v2\<rparr>) st)) = import_bucket (this st)"
  "import_bucket (this (modify_elz (\<lambda>elz. elz\<lparr>accountsDeployedExternally := v3\<rparr>) st))
     = import_bucket (this st)"
  by (simp_all add: modify_elz_def import_bucket_def split: option.splits)

lemma resourceList_of_modify_elz [simp]:
  "import_bucket (this st) = Some b \<Longrightarrow>
   resourceList_of (modify_elz (\<lambda>elz. elz\<lparr>resourceList := v\<rparr>) st) = v"
  by (auto simp add: modify_elz_def import_bucket_def resourceList_of_def split: option.splits)

lemma log_request_frame [simp]:
  "s3_requests (log_request b k st) = s3_requests st @ [(b, k)]"
  "this (log_request b k st) = this st"
  "disk (log_request b k st) = disk st"
  by (simp_all add: log_request_def)

lemma console_error_frame [simp]:
  "s3_requests (console_error l st) = s3_requests st"
  "this (console_error l st) = this st"
  "disk (console_error l st) = disk st"
  by (simp_all add: console_error_def)

lemma load_from_s3_failures:
  assumes imp: "import_bucket (this st) = Some bucket"
    and dir: "dirs (disk st) dir \<noteq> None"
  shows "(\<forall>e. s3_getObject S (GlobalConfig.homeRegion (this st)) bucket ''mapping.json'' = Inl e \<longrightarrow>
            snd (load_from_s3 S dir st) = Inl e)
     \<and> (s3_getObject S (GlobalConfig.homeRegion (this st)) bucket ''mapping.json'' = Inr None \<longrightarrow>
            snd (load_from_s3 S dir st) = Inl (Error ''Runtime error''))
     \<and> (\<forall>e. s3_getObject S (GlobalConfig.homeRegion (this st)) bucket ''aseaResources.json'' = Inl e
            \<and> s3_requests (fst (load_from_s3 S dir st))
                = s3_requests st @ [(bucket, ''mapping.json''), (bucket, ''aseaResources.json'')] \<longrightarrow>
            (if err_code e = Some ''NoSuchKey''
             then snd (load_from_s3 S dir st) = Inr ()
                  \<and> resourceList_of (fst (load_from_s3 S dir st)) = Some []
             else snd (load_from_s3 S dir st) = Inl e))"
proof -
  let ?home = "GlobalConfig.homeRegion (this st)"
  let ?st1 = "log_request bucket ''mapping.json'' st"
  show ?thesis
  proof (cases "s3_getObject S ?home bucket ''mapping.json''")
    case (Inl e)
    then have "load_from_s3 S dir st = (?st1, Inl e)"
      by (simp add: load_from_s3_def loadExternalMappingFromS3_def imp Let_def)
    with Inl show ?thesis by simp
  next
    case (Inr body)
    show ?thesis
    proof (cases body)
      case None
      with Inr have "load_from_s3 S dir st
          = (console_error (''Could not load mapping file from path s3://'' @ bucket @ ''/mapping.json'')
               ?st1, Inl (Error ''Runtime error''))"
        by (simp add: load_from_s3_def loadExternalMappingFromS3_def imp Let_def)
      with Inr None show ?thesis by simp
    next
      case (Some content)
      show ?thesis
      proof (cases "JSON_parse_mapping S content")
        case (Inl e)
        with Inr Some have "load_from_s3 S dir st = (?st1, Inl e)"
          by (simp add: load_from_s3_def loadExternalMappingFromS3_def imp Let_def)
        with Inr Some show ?thesis by simp
      next
        case parsed: (Inr m)
        from Inr Some parsed have fetch:
          "loadExternalMappingFromS3 S ?home st = (?st1, Inr (Some m))"
          by (simp add: loadExternalMappingFromS3_def imp Let_def)
        obtain st2 r where stm: "setTemplateMap S (Some m) ?st1 = (st2, r)"
          by (cases "setTemplateMap S (Some m) ?st1")
        from setTemplateMap_frame [OF stm, of dir] imp dir have
          req2: "s3_requests st2 = s3_requests st @ [(bucket, ''mapping.json'')]"
          and imp2: "import_bucket (this st2) = Some bucket"
          and home2: "GlobalConfig.homeRegion (this st2) = ?home"
          and dir2: "dirs (disk st2) dir \<noteq> None"
          by simp_all
        show ?thesis
        proof (cases r)
          case (Inl e)
          with fetch stm have "load_from_s3 S dir st = (st2, Inl e)"
            by (simp add: load_from_s3_def Let_def)
          with Inr Some req2 show ?thesis by simp
        next
          case stacks: (Inr stacks)
          let ?st3 = "modify_elz (\<lambda>elz. elz\<lparr>templateMap := Some stacks\<rparr>) st2"
          let ?st3' = "log_request bucket ''aseaResources.json'' ?st3"
          have mapping_ok: "s3_getObject S ?home bucket ''mapping.json'' \<noteq> Inr None"
            "\<forall>e. s3_getObject S ?home bucket ''mapping.json'' \<noteq> Inl e"
            using Inr Some by simp_all
          have third: "(if err_code e = Some ''NoSuchKey''
             then snd (load_from_s3 S dir st) = Inr ()
                  \<and> resourceList_of (fst (load_from_s3 S dir st)) = Some []
             else snd (load_from_s3 S dir st) = Inl e)"
            if e: "s3_getObject S ?home bucket ''aseaResources.json'' = Inl e" for e
          proof (cases "err_code e = Some ''NoSuchKey''")
            case False
            with e have "readJsonFromExternalS3 S ''aseaResources.json'' ?home ?st3 = (?st3', Inl e)"
              by (simp add: readJsonFromExternalS3_def imp2 Let_def)
            with fetch stm stacks have "load_from_s3 S dir st = (?st3', Inl e)"
              by (simp add: load_from_s3_def Let_def)
            with False show ?thesis by simp
          next
            case True
            with e have rd: "readJsonFromExternalS3 S ''aseaResources.json'' ?home ?st3 = (?st3', Inr None)"
              by (simp add: readJsonFromExternalS3_def imp2 Let_def)
            let ?st5 = "modify_elz (\<lambda>elz. elz\<lparr>resourceList := Some []\<rparr>) ?st3'"
            from dir2 have "dirs (disk ?st5) dir \<noteq> None" by simp
            then obtain d1 where w1:
              "writeFileSync (disk ?st5) dir ''aseaMapping.json'' (JSON_stringify_mapping S m) = Inr d1"
              using writeFileSync_succeeds by blast
            from w1 \<open>dirs (disk ?st5) dir \<noteq> None\<close> have "dirs d1 dir \<noteq> None"
              by (rule writeFileSync_keeps_dirs)
            then obtain d2 where w2:
              "writeFileSync d1 dir ''aseaResources.json'' (JSON_stringify S (JArr [])) = Inr d2"
              using writeFileSync_succeeds by blast
            from fetch stm stacks rd w1 w2 have "load_from_s3 S dir st = (?st5\<lparr>disk := d2\<rparr>, Inr ())"
              by (simp add: load_from_s3_def Let_def)
            moreover have "resourceList_of (?st5\<lparr>disk := d2\<rparr>) = Some []"
              using imp2 by (simp add: resourceList_of_def modify_elz_def import_bucket_def
                  log_request_def split: option.splits)
            ultimately show ?thesis using True by simp
          qed
          from mapping_ok third show ?thesis by blast
        qed
      qed
    qed
  qed
qed

text \<open>
  C8. With import enabled, a bucket configured and the temporary directory created:
  any error thrown by the fetch of \<^verbatim>\<open>mapping.json\<close>, key not found included, fails
  the call with that error; a response without a body fails it with
  \<^verbatim>\<open>Error('Runtime error')\<close>; and when the call gets as far as requesting
  \<^verbatim>\<open>aseaResources.json\<close> and that fetch throws, key not found makes the call succeed
  with an empty resource list, and any other error fails the call with that error.
\<close>

theorem loadExternalMapping_object_storage_failures:
  assumes imp: "import_bucket (this st) = Some bucket"
    and tmp: "mkdtemp (disk st) (path_join (os_tmpdir S) ''asea-assets'') = Inr (dir, d)"
  shows "(\<forall>e. s3_getObject S (GlobalConfig.homeRegion (this st)) bucket ''mapping.json'' = Inl e \<longrightarrow>
            snd (loadExternalMapping S loadFromCache st) = Inl e)
     \<and> (s3_getObject S (GlobalConfig.homeRegion (this st)) bucket ''mapping.json'' = Inr None \<longrightarrow>
            snd (loadExternalMapping S loadFromCache st) = Inl (Error ''Runtime error''))
     \<and> (\<forall>e. s3_getObject S (GlobalConfig.homeRegion (this st)) bucket ''aseaResources.json'' = Inl e
            \<and> s3_requests (fst (loadExternalMapping S loadFromCache st))
                = s3_requests st @ [(bucket, ''mapping.json''), (bucket, ''aseaResources.json'')] \<longrightarrow>
            (if err_code e = Some ''NoSuchKey''
             then snd (loadExternalMapping S loadFromCache st) = Inr ()
                  \<and> resourceList_of (fst (loadExternalMapping S loadFromCache st)) = Some []
             else snd (loadExternalMapping S loadFromCache st) = Inl e))"
proof -
  let ?st2 = "(modify_elz (\<lambda>elz. elz\<lparr>accountsDeployedExternally := Some []\<rparr>) st)\<lparr>disk := d\<rparr>"
  from imp obtain elz where "GlobalConfig.externalLandingZoneResources (this st) = Some elz"
    and "importExternalLandingZoneResources elz"
    by (auto simp add: import_bucket_def split: option.splits if_splits)
  with tmp mkdtemp_directory_is_empty [OF tmp]
  have run: "loadExternalMapping S loadFromCache st = load_from_s3 S dir ?st2"
    by (simp add: loadExternalMapping_def Let_def)
  have "import_bucket (this ?st2) = Some bucket"
    using imp by simp
  moreover have "dirs (disk ?st2) dir \<noteq> None"
    by (simp add: mkdtemp_fresh(2) [OF tmp])
  ultimately show ?thesis
    using load_from_s3_failures [of ?st2 bucket dir S] by (simp add: run)
qed

theorem loadExternalMapping_object_storage_failures_witness:
  "import_bucket (this state0) = Some ''asea-bucket''
   \<and> (\<exists>dir d. mkdtemp (disk state0) ''/tmp/asea-assets'' = Inr (dir, d))
   \<and> snd (loadExternalMapping services_missing True state0) = Inl NoSuchKey
   \<and> snd (loadExternalMapping services_empty True state0) = Inl (Error ''Runtime error'')
   \<and> snd (loadExternalMapping services0 True state0) = Inr ()
   \<and> resourceList_of (fst (loadExternalMapping services0 True state0)) = Some []
   \<and> snd (loadExternalMapping services_denied True state0) = Inl AccessDenied"
proof -
  have imp: "import_bucket (this state0) = Some ''asea-bucket''"
    by (simp add: state0_def config0_def import_bucket_def)
  have "case mkdtemp (disk state0) ''/tmp/asea-assets'' of Inl e \<Rightarrow> False | Inr made \<Rightarrow> True"
    by code_simp
  then obtain dir d where tmp: "mkdtemp (disk state0) ''/tmp/asea-assets'' = Inr (dir, d)"
    by (auto split: sum.splits)
  have home: "GlobalConfig.homeRegion (this state0) = ''us-east-1''"
    by (simp add: state0_def config0_def)
  have t0: "path_join (os_tmpdir services0) ''asea-assets'' = ''/tmp/asea-assets''"
    and t1: "path_join (os_tmpdir services_missing) ''asea-assets'' = ''/tmp/asea-assets''"
    and t2: "path_join (os_tmpdir services_empty) ''asea-assets'' = ''/tmp/asea-assets''"
    and t3: "path_join (os_tmpdir services_denied) ''asea-assets'' = ''/tmp/asea-assets''"
    by (simp_all add: path_join_def services0_def services_missing_def services_empty_def
        services_denied_def)
  have g1: "s3_getObject services_missing ''us-east-1'' ''asea-bucket'' ''mapping.json'' = Inl NoSuchKey"
    by (simp add: services_missing_def)
  have g2: "s3_getObject services_empty ''us-east-1'' ''asea-bucket'' ''mapping.json'' = Inr None"
    by (simp add: services_empty_def)
  have g3: "s3_getObject services0 ''us-east-1'' ''asea-bucket'' ''aseaResources.json'' = Inl NoSuchKey"
    by (simp add: services0_def)
  have g4: "s3_getObject services_denied ''us-east-1'' ''asea-bucket'' ''aseaResources.json''
              = Inl AccessDenied"
    by (simp add: services_denied_def)
  have r3: "s3_requests (fst (loadExternalMapping services0 True state0))
              = s3_requests state0
                @ [(''asea-bucket'', ''mapping.json''), (''asea-bucket'', ''aseaResources.json'')]"
    by code_simp
  have r4: "s3_requests (fst (loadExternalMapping services_denied True state0))
              = s3_requests state0
                @ [(''asea-bucket'', ''mapping.json''), (''asea-bucket'', ''aseaResources.json'')]"
    by code_simp
  have c3: "err_code NoSuchKey = Some ''NoSuchKey''" and c4: "err_code AccessDenied \<noteq> Some ''NoSuchKey''"
    by (simp_all add: NoSuchKey_def AccessDenied_def)
  from loadExternalMapping_object_storage_failures
         [of state0 "''asea-bucket''" services_missing dir d True] imp tmp t1 g1 home
  have 1: "snd (loadExternalMapping services_missing True state0) = Inl NoSuchKey" by simp
  from loadExternalMapping_object_storage_failures
         [of state0 "''asea-bucket''" services_empty dir d True] imp tmp t2 g2 home
  have 2: "snd (loadExternalMapping services_empty True state0) = Inl (Error ''Runtime error'')"
    by simp
  from loadExternalMapping_object_storage_failures
         [of state0 "''asea-bucket''" services0 dir d True] imp tmp t0 g3 r3 c3 home
  have 3: "snd (loadExternalMapping services0 True state0) = Inr ()
           \<and> resourceList_of (fst (loadExternalMapping services0 True state0)) = Some []"
    by simp
  from loadExternalMapping_object_storage_failures
         [of state0 "''asea-bucket''" services_denied dir d True] imp tmp t3 g4 r4 c4 home
  have 4: "snd (loadExternalMapping services_denied True state0) = Inl AccessDenied" by simp
  from imp tmp 1 2 3 4 show ?thesis by blast
qed

text \<open>
  The directory \<^verbatim>\<open>loadExternalMapping\<close> looks into is the one \<^verbatim>\<open>mkdtemp\<close> has just
  created, so the cached file is never found and the flag changes nothing.
\<close>

lemma loadFromCache_is_ignored:
  "loadExternalMapping S True st = loadExternalMapping S False st"
proof (cases "mkdtemp (disk st) (path_join (os_tmpdir S) ''asea-assets'')")
  case (Inl e)
  then show ?thesis by (simp add: loadExternalMapping_def Let_def split: option.splits)
next
  case (Inr made)
  obtain dir d where "made = (dir, d)" by (cases made)
  with Inr have tmp: "mkdtemp (disk st) (path_join (os_tmpdir S) ''asea-assets'') = Inr (dir, d)"
    by simp
  from tmp mkdtemp_directory_is_empty [OF tmp] show ?thesis
    by (simp add: loadExternalMapping_def Let_def split: option.splits)
qed

text \<open>
  C2 fails on the code. A first run writes \<^verbatim>\<open>aseaMapping.json\<close> and
  \<^verbatim>\<open>aseaResources.json\<close> to its temporary directory. A second run on the state it
  leaves, with \<^verbatim>\<open>loadFromCache = true\<close>, sends both object-storage requests again.
\<close>

theorem second_run_fetches_again:
  "snd (loadExternalMapping services0 False state0) = Inr ()
   \<and> existsSync (disk (fst (loadExternalMapping services0 False state0)))
         ''/tmp/asea-assetsa1B2c3'' ''aseaMapping.json''
   \<and> existsSync (disk (fst (loadExternalMapping services0 False state0)))
         ''/tmp/asea-assetsa1B2c3'' ''aseaResources.json''
   \<and> s3_requests (fst (loadExternalMapping services0 False state0))
       = [(''asea-bucket'', ''mapping.json''), (''asea-bucket'', ''aseaResources.json'')]
   \<and> snd (loadExternalMapping services0 True (fst (loadExternalMapping services0 False state0)))
       = Inr ()
   \<and> s3_requests
         (fst (loadExternalMapping services0 True (fst (loadExternalMapping services0 False state0))))
       = [(''asea-bucket'', ''mapping.json''), (''asea-bucket'', ''aseaResources.json''),
          (''asea-bucket'', ''mapping.json''), (''asea-bucket'', ''aseaResources.json'')]"
  by code_simp

section \<open>Loading the parameters\<close>

lemma getCrossAccountCredentials_this:
  "getCrossAccountCredentials S a rgn p role st = (st', r) \<Longrightarrow> this st' = this st"
  by (auto simp add: getCrossAccountCredentials_def Let_def console_error_def
      split: sum.splits option.splits)

lemma has_entry_cong: "this st' = this st \<Longrightarrow> has_entry st' key = has_entry st key"
  by (simp add: has_entry_def)

lemma parameters_defined_cong: "this st' = this st \<Longrightarrow> parameters_defined st' = parameters_defined st"
  by (simp add: parameters_defined_def)

lemma set_resourceParameters_effect:
  assumes "set_resourceParameters key v st = Inr st'"
  shows "has_entry st' key"
    and "has_entry st k \<Longrightarrow> has_entry st' k"
    and "parameters_defined st'"
    and "GlobalConfig.managementAccountAccessRole (this st')
           = GlobalConfig.managementAccountAccessRole (this st)"
  using assms
  by (auto simp add: set_resourceParameters_def has_entry_def parameters_defined_def
      modify_elz_def split: option.splits)

lemma set_resourceParameters_succeeds:
  "parameters_defined st \<Longrightarrow> \<exists>st'. set_resourceParameters key v st = Inr st'"
  by (auto simp add: set_resourceParameters_def parameters_defined_def split: option.splits)

lemma reconcile_account_step:
  assumes m: "(st1, r) \<in> set (reconcile_account S rgn p x a st)"
    and d: "parameters_defined st"
  shows "parameters_defined st1"
    and "GlobalConfig.managementAccountAccessRole (this st1)
           = GlobalConfig.managementAccountAccessRole (this st)"
    and "has_entry st k \<Longrightarrow> has_entry st1 k"
    and "r = Inr () \<Longrightarrow> has_entry st1 (a @ ''-'' @ rgn)"
proof -
  obtain st0 g where g: "getCrossAccountCredentials S a rgn p
           (GlobalConfig.managementAccountAccessRole (this st)) st = (st0, g)"
    by (cases "getCrossAccountCredentials S a rgn p
           (GlobalConfig.managementAccountAccessRole (this st)) st")
  note same = getCrossAccountCredentials_this [OF g]
  have d0: "parameters_defined st0" using d parameters_defined_cong [OF same] by simp
  have stay: "parameters_defined st0
      \<and> GlobalConfig.managementAccountAccessRole (this st0)
           = GlobalConfig.managementAccountAccessRole (this st)
      \<and> (has_entry st k \<longrightarrow> has_entry st0 k)"
    using d0 same has_entry_cong [OF same, of k] by simp
  have "parameters_defined st1
      \<and> GlobalConfig.managementAccountAccessRole (this st1)
           = GlobalConfig.managementAccountAccessRole (this st)
      \<and> (has_entry st k \<longrightarrow> has_entry st1 k)
      \<and> (r = Inr () \<longrightarrow> has_entry st1 (a @ ''-'' @ rgn))"
  proof (cases g)
    case (Inl e)
    with m g have "st1 = st0" "r = Inl e" by (simp_all add: reconcile_account_def)
    with stay show ?thesis by simp
  next
    case creds: (Inr creds)
    show ?thesis
    proof (cases "getCrossAccountSsmClient rgn creds")
      case (Inl e)
      with m g creds have "st1 = st0" "r = Inl e" by (simp_all add: reconcile_account_def)
      with stay show ?thesis by simp
    next
      case client: (Inr client)
      let ?f = "\<lambda>settled. case settled of
                  Inl e \<Rightarrow> (st0, Inl e)
                | Inr ssmResults \<Rightarrow>
                    (case set_resourceParameters (a @ ''-'' @ rgn)
                            (foldl (\<lambda>resources result. resources ++ result) Map.empty ssmResults)
                            st0 of
                       Inl e \<Rightarrow> (st0, Inl e)
                     | Inr st2 \<Rightarrow> (st2, Inr ()))"
      from m have "(st1, r) \<in> ?f ` set (Promise_all (ssmPromises S x client))"
        by (simp only: reconcile_account_def g creds client prod.case sum.case list.set_map)
      then obtain settled where e: "(st1, r) = ?f settled" by blast
      show ?thesis
      proof (cases settled)
        case (Inl e')
        with e have "st1 = st0" "r = Inl e'" by simp_all
        with stay show ?thesis by simp
      next
        case results: (Inr results)
        let ?v = "foldl (\<lambda>resources result. resources ++ result) Map.empty results"
        from set_resourceParameters_succeeds [OF d0] obtain st2 where
          w: "set_resourceParameters (a @ ''-'' @ rgn) ?v st0 = Inr st2" by blast
        with e results have "st1 = st2" "r = Inr ()" by simp_all
        with set_resourceParameters_effect(1) [OF w]
          set_resourceParameters_effect(2) [OF w, of k]
          set_resourceParameters_effect(3) [OF w]
          set_resourceParameters_effect(4) [OF w] stay
        show ?thesis by simp
      qed
    qed
  qed
  then show "parameters_defined st1"
    and "GlobalConfig.managementAccountAccessRole (this st1)
           = GlobalConfig.managementAccountAccessRole (this st)"
    and "has_entry st k \<Longrightarrow> has_entry st1 k"
    and "r = Inr () \<Longrightarrow> has_entry st1 (a @ ''-'' @ rgn)"
    by simp_all
qed

lemma getCrossAccountCredentials_outcome:
  "snd (getCrossAccountCredentials S a rgn p role st) = snd (getCrossAccountCredentials S a rgn p role st')"
  by (simp add: getCrossAccountCredentials_def Let_def split: sum.splits option.splits)

lemma account_outcomes_eq:
  assumes "parameters_defined st"
  shows "account_outcomes S rgn p x a st =
     (case snd (getCrossAccountCredentials S a rgn p
                  (GlobalConfig.managementAccountAccessRole (this st)) st) of
        Inl e \<Rightarrow> [Inl e]
      | Inr creds \<Rightarrow>
          (case getCrossAccountSsmClient rgn creds of
             Inl e \<Rightarrow> [Inl e]
           | Inr client \<Rightarrow>
               map (\<lambda>settled. case settled of Inl e \<Rightarrow> Inl e | Inr ssmResults \<Rightarrow> Inr ())
                 (Promise_all (ssmPromises S x client))))"
proof -
  obtain st0 g where g: "getCrossAccountCredentials S a rgn p
           (GlobalConfig.managementAccountAccessRole (this st)) st = (st0, g)"
    by (cases "getCrossAccountCredentials S a rgn p
           (GlobalConfig.managementAccountAccessRole (this st)) st")
  from assms parameters_defined_cong [OF getCrossAccountCredentials_this [OF g]]
  have d0: "parameters_defined st0" by simp
  have commit: "snd (case set_resourceParameters key v st0 of
                       Inl e \<Rightarrow> (st0, Inl e) | Inr st2 \<Rightarrow> (st2, Inr ())) = Inr ()" for key v
    using set_resourceParameters_succeeds [OF d0, of key v] by auto
  show ?thesis
    using g commit
    by (auto simp add: account_outcomes_def reconcile_account_def split: sum.splits)
qed

lemma account_outcomes_same:
  assumes "parameters_defined st" and "parameters_defined ref"
    and "GlobalConfig.managementAccountAccessRole (this st)
           = GlobalConfig.managementAccountAccessRole (this ref)"
  shows "account_outcomes S rgn p x a st = account_outcomes S rgn p x a ref"
  using assms(3) getCrossAccountCredentials_outcome [of S a rgn p
      "GlobalConfig.managementAccountAccessRole (this ref)" st ref]
  by (simp add: account_outcomes_eq [OF assms(1)] account_outcomes_eq [OF assms(2)])

lemma outcome_of_pass:
  "(st1, r) \<in> set (reconcile_account S rgn p x a st) \<Longrightarrow> r \<in> set (account_outcomes S rgn p x a st)"
  by (force simp add: account_outcomes_def)

lemma pass_of_outcome:
  "r \<in> set (account_outcomes S rgn p x a st) \<Longrightarrow> \<exists>st1. (st1, r) \<in> set (reconcile_account S rgn p x a st)"
  by (auto simp add: account_outcomes_def)

lemma all_values_no_rejections:
  "all_values ps = Some vs \<Longrightarrow> rejections ps = []"
proof (induction ps arbitrary: vs rule: all_values.induct)
  case 1
  show ?case by (simp add: rejections_def)
next
  case (2 v ps)
  from "2.prems" obtain ws where "all_values ps = Some ws" by auto
  from "2.IH" [OF this] show ?case by (simp add: rejections_def)
qed simp_all

lemma Promise_all_fulfilled:
  assumes "Inr vs \<in> set (Promise_all ps)"
  shows "Promise_all ps = [Inr vs]"
proof -
  from assms have v: "all_values ps = Some vs"
    by (auto simp add: Promise_all_def split: option.splits)
  from all_values_no_rejections [OF this] v show ?thesis
    by (simp add: Promise_all_def)
qed

lemma account_succeeds_only:
  assumes "parameters_defined st" and "Inr () \<in> set (account_outcomes S rgn p x a st)"
  shows "account_outcomes S rgn p x a st = [Inr ()]"
proof (cases "snd (getCrossAccountCredentials S a rgn p
                     (GlobalConfig.managementAccountAccessRole (this st)) st)")
  case (Inl e)
  with assms(2) show ?thesis by (simp add: account_outcomes_eq [OF assms(1)])
next
  case (Inr creds)
  show ?thesis
  proof (cases "getCrossAccountSsmClient rgn creds")
    case (Inl e)
    with assms(2) Inr show ?thesis by (simp add: account_outcomes_eq [OF assms(1)])
  next
    case client: (Inr client)
    let ?f = "\<lambda>settled. case settled of Inl e \<Rightarrow> (Inl e :: error + unit) | Inr (ssmResults :: (string \<rightharpoonup> string) list) \<Rightarrow> Inr ()"
    from Inr client have eq: "account_outcomes S rgn p x a st
                                = map ?f (Promise_all (ssmPromises S x client))"
      by (simp add: account_outcomes_eq [OF assms(1)])
    with assms(2) obtain settled where
      m: "settled \<in> set (Promise_all (ssmPromises S x client))" and f: "?f settled = Inr ()"
      by auto
    from f obtain vs where "settled = Inr vs" by (cases settled) simp_all
    with m have "Promise_all (ssmPromises S x client) = [Inr vs]"
      by (intro Promise_all_fulfilled) simp
    with eq show ?thesis by simp
  qed
qed

lemma pass_commits:
  assumes "parameters_defined st"
    and "getCrossAccountCredentials S a rgn p (GlobalConfig.managementAccountAccessRole (this st)) st
           = (st, Inr creds)"
    and "getCrossAccountSsmClient rgn creds = Inr client"
    and "rejections (ssmPromises S x client) = []"
    and "all_values (ssmPromises S x client) = Some vs"
  shows "reconcile_account S rgn p x a st =
     [(projr (set_resourceParameters (a @ ''-'' @ rgn)
                (foldl (\<lambda>resources result. resources ++ result) Map.empty vs) st), Inr ())]"
proof -
  from set_resourceParameters_succeeds [OF assms(1)] obtain st2 where
    "set_resourceParameters (a @ ''-'' @ rgn)
       (foldl (\<lambda>resources result. resources ++ result) Map.empty vs) st = Inr st2"
    by blast
  with assms(2-5) show ?thesis
    by (simp add: reconcile_account_def Promise_all_def)
qed

lemma pass_throws:
  assumes "snd (getCrossAccountCredentials S a rgn p
                  (GlobalConfig.managementAccountAccessRole (this st)) st) = Inl e"
  shows "reconcile_account S rgn p x a st =
     [(fst (getCrossAccountCredentials S a rgn p
              (GlobalConfig.managementAccountAccessRole (this st)) st), Inl e)]"
  using assms
  by (cases "getCrossAccountCredentials S a rgn p
               (GlobalConfig.managementAccountAccessRole (this st)) st")
     (simp add: reconcile_account_def)

lemma role_assumed_111:
  "getCrossAccountCredentials services0 ''111'' ''us-east-1'' ''aws'' ''OrgAccessRole'' st
     = (st, Inr credentials0)"
  by (simp add: getCrossAccountCredentials_def services0_def throttlingBackOff_def
      credentials0_def Let_def)

lemma role_denied_222:
  "snd (getCrossAccountCredentials services0 ''222'' ''us-east-1'' ''aws'' ''OrgAccessRole'' st)
     = Inl (Error ''Access Denied'')"
  by (simp add: getCrossAccountCredentials_def services0_def throttlingBackOff_def
      AccessDenied_def Let_def)

lemma client_of_credentials0:
  "getCrossAccountSsmClient ''us-east-1'' credentials0 = Inr client0"
  by (simp add: getCrossAccountSsmClient_def credentials0_def client0_def)

lemma queries_fulfilled:
  "rejections (ssmPromises services0 ''ASEA'' client0) = []"
  "\<exists>vs. all_values (ssmPromises services0 ''ASEA'' client0) = Some vs"
proof -
  show "rejections (ssmPromises services0 ''ASEA'' client0) = []" by code_simp
  have "case all_values (ssmPromises services0 ''ASEA'' client0) of
          None \<Rightarrow> False | Some vs \<Rightarrow> True"
    by code_simp
  then show "\<exists>vs. all_values (ssmPromises services0 ''ASEA'' client0) = Some vs"
    by (auto split: option.splits)
qed

lemma regions_of_update:
  "i < length tasks \<Longrightarrow> tasks ! i = (rgn, l) \<Longrightarrow> map fst (tasks[i := (rgn, l')]) = map fst tasks"
  by (simp add: map_update) (metis fst_conv list_update_id nth_map)

text \<open>
  What every way of settling has in common, and a way of settling for a region whose loop
  comes to a pass that throws.
\<close>

lemma settles_sound:
  assumes "settles S p x tasks st st' outcome"
    and "parameters_defined st" and "parameters_defined ref"
    and "GlobalConfig.managementAccountAccessRole (this st)
           = GlobalConfig.managementAccountAccessRole (this ref)"
    and "\<forall>t\<in>set tasks. \<exists>pre. accts = pre @ snd t
           \<and> (\<forall>b\<in>set pre. Inr () \<in> set (account_outcomes S (fst t) p x b ref)
                 \<and> has_entry st (b @ ''-'' @ fst t))"
  shows "parameters_defined st' \<and> (\<forall>k. has_entry st k \<longrightarrow> has_entry st' k)
     \<and> (outcome = Inr () \<longrightarrow>
          (\<forall>rgn\<in>set (map fst tasks). \<forall>b\<in>set accts.
             Inr () \<in> set (account_outcomes S rgn p x b ref) \<and> has_entry st' (b @ ''-'' @ rgn)))
     \<and> (\<forall>e. outcome = Inl e \<longrightarrow>
          (\<exists>rgn\<in>set (map fst tasks). \<exists>pre a rest. accts = pre @ a # rest
             \<and> Inl e \<in> set (account_outcomes S rgn p x a ref)
             \<and> (\<forall>b\<in>set pre. has_entry st' (b @ ''-'' @ rgn))))"
  using assms
proof (induction rule: settles.induct)
  case (fulfilled tasks st)
  have "Inr () \<in> set (account_outcomes S rgn p x b ref) \<and> has_entry st (b @ ''-'' @ rgn)"
    if "rgn \<in> set (map fst tasks)" "b \<in> set accts" for rgn b
  proof -
    from that(1) obtain t where t: "t \<in> set tasks" "fst t = rgn" by auto
    with fulfilled.hyps have "snd t = []" by (simp add: list_all_iff)
    with fulfilled.prems(4) t(1) have
      "\<forall>b\<in>set accts. Inr () \<in> set (account_outcomes S (fst t) p x b ref)
           \<and> has_entry st (b @ ''-'' @ fst t)"
      by fastforce
    with t(2) that(2) show ?thesis by blast
  qed
  with fulfilled.prems(1) show ?case by simp
next
  case (rejected i tasks rgn a rest st1 e st)
  from nth_mem [OF rejected.hyps(1)] rejected.hyps(2)
  have mem: "(rgn, a # rest) \<in> set tasks" by simp
  from rejected.prems(4) [rule_format, OF mem] obtain pre where pre: "accts = pre @ a # rest"
    and had: "\<forall>b\<in>set pre. has_entry st (b @ ''-'' @ rgn)"
    by (simp only: fst_conv snd_conv) blast
  note step = reconcile_account_step [OF rejected.hyps(3) rejected.prems(1)]
  have same: "account_outcomes S rgn p x a st = account_outcomes S rgn p x a ref"
    by (rule account_outcomes_same [OF rejected.prems(1) rejected.prems(2) rejected.prems(3)])
  from outcome_of_pass [OF rejected.hyps(3)]
  have out: "Inl e \<in> set (account_outcomes S rgn p x a ref)" unfolding same .
  from mem have r: "rgn \<in> set (map fst tasks)" by (simp add: image_iff) (metis fst_conv)
  from had step(3) have "\<forall>b\<in>set pre. has_entry st1 (b @ ''-'' @ rgn)" by blast
  with pre out r have "\<exists>rgn\<in>set (map fst tasks). \<exists>pre a rest. accts = pre @ a # rest
             \<and> Inl e \<in> set (account_outcomes S rgn p x a ref)
             \<and> (\<forall>b\<in>set pre. has_entry st1 (b @ ''-'' @ rgn))"
    by blast
  with step(1) step(3) show ?case by simp
next
  case (progress i tasks rgn a rest st1 st st' outcome)
  note step = reconcile_account_step [OF progress.hyps(3) progress.prems(1)]
  have same: "account_outcomes S rgn p x a st = account_outcomes S rgn p x a ref"
    by (rule account_outcomes_same [OF progress.prems(1) progress.prems(2) progress.prems(3)])
  from outcome_of_pass [OF progress.hyps(3)]
  have ok: "Inr () \<in> set (account_outcomes S rgn p x a ref)" unfolding same .
  from nth_mem [OF progress.hyps(1)] progress.hyps(2)
  have mem: "(rgn, a # rest) \<in> set tasks" by simp
  have inv: "\<forall>t\<in>set (tasks[i := (rgn, rest)]). \<exists>pre. accts = pre @ snd t
           \<and> (\<forall>b\<in>set pre. Inr () \<in> set (account_outcomes S (fst t) p x b ref)
                 \<and> has_entry st1 (b @ ''-'' @ fst t))"
  proof
    fix t assume "t \<in> set (tasks[i := (rgn, rest)])"
    then consider "t = (rgn, rest)" | "t \<in> set tasks"
      using set_update_subset_insert by fastforce
    then show "\<exists>pre. accts = pre @ snd t
           \<and> (\<forall>b\<in>set pre. Inr () \<in> set (account_outcomes S (fst t) p x b ref)
                 \<and> has_entry st1 (b @ ''-'' @ fst t))"
    proof cases
      case 1
      from progress.prems(4) [rule_format, OF mem] obtain pre where pre: "accts = pre @ a # rest"
        and had: "\<forall>b\<in>set pre. Inr () \<in> set (account_outcomes S rgn p x b ref)
                 \<and> has_entry st (b @ ''-'' @ rgn)"
        by (simp only: fst_conv snd_conv) blast
      have "accts = (pre @ [a]) @ snd t" using pre 1 by simp
      moreover have "\<forall>b\<in>set (pre @ [a]). Inr () \<in> set (account_outcomes S (fst t) p x b ref)
                 \<and> has_entry st1 (b @ ''-'' @ fst t)"
        using had ok step(3) step(4) 1 by auto
      ultimately show ?thesis by blast
    next
      case 2
      with progress.prems(4) obtain pre where "accts = pre @ snd t"
        and "\<forall>b\<in>set pre. Inr () \<in> set (account_outcomes S (fst t) p x b ref)
                 \<and> has_entry st (b @ ''-'' @ fst t)"
        by blast
      with step(3) show ?thesis by blast
    qed
  qed
  from progress.prems(3) step(2) have role: "GlobalConfig.managementAccountAccessRole (this st1)
           = GlobalConfig.managementAccountAccessRole (this ref)" by simp
  note ih = progress.IH [OF step(1) progress.prems(2) role inv]
  from regions_of_update [OF progress.hyps(1,2)]
  have "map fst (tasks[i := (rgn, rest)]) = map fst tasks" .
  with ih step(3) show ?case by auto
qed

lemma failing_run_exists:
  assumes "i < length tasks" and "tasks ! i = (rgn, pre @ a # rest)"
    and "parameters_defined st" and "parameters_defined ref"
    and "GlobalConfig.managementAccountAccessRole (this st)
           = GlobalConfig.managementAccountAccessRole (this ref)"
    and "\<forall>b\<in>set pre. Inr () \<in> set (account_outcomes S rgn p x b ref)"
    and "Inl e \<in> set (account_outcomes S rgn p x a ref)"
  shows "\<exists>st'. settles S p x tasks st st' (Inl e)
           \<and> (\<forall>b\<in>set pre. has_entry st' (b @ ''-'' @ rgn))
           \<and> (\<forall>k. has_entry st k \<longrightarrow> has_entry st' k)"
  using assms
proof (induction pre arbitrary: tasks st)
  case Nil
  from Nil.prems(7) account_outcomes_same [OF Nil.prems(3) Nil.prems(4) Nil.prems(5)]
  have "Inl e \<in> set (account_outcomes S rgn p x a st)" by simp
  from pass_of_outcome [OF this] obtain st1 where
    m: "(st1, Inl e) \<in> set (reconcile_account S rgn p x a st)" by blast
  from Nil.prems(1,2) m have "settles S p x tasks st st1 (Inl e)"
    by (intro settles.rejected [of i tasks rgn a rest]) simp_all
  with reconcile_account_step(3) [OF m Nil.prems(3)] show ?case by auto
next
  case (Cons b pre)
  from Cons.prems(6) account_outcomes_same [OF Cons.prems(3) Cons.prems(4) Cons.prems(5)]
  have "Inr () \<in> set (account_outcomes S rgn p x b st)" by simp
  from pass_of_outcome [OF this] obtain st1 where
    m: "(st1, Inr ()) \<in> set (reconcile_account S rgn p x b st)" by blast
  note step = reconcile_account_step [OF m Cons.prems(3)]
  let ?tasks = "tasks[i := (rgn, pre @ a # rest)]"
  from Cons.prems(1) have i: "i < length ?tasks" and at: "?tasks ! i = (rgn, pre @ a # rest)"
    by simp_all
  from Cons.prems(5) step(2) have role: "GlobalConfig.managementAccountAccessRole (this st1)
           = GlobalConfig.managementAccountAccessRole (this ref)" by simp
  from Cons.prems(6) have okpre: "\<forall>b\<in>set pre. Inr () \<in> set (account_outcomes S rgn p x b ref)"
    by simp
  from Cons.IH [OF i at step(1) Cons.prems(4) role okpre Cons.prems(7)] obtain st' where
    run: "settles S p x ?tasks st1 st' (Inl e)"
    and pre: "\<forall>b\<in>set pre. has_entry st' (b @ ''-'' @ rgn)"
    and keep: "\<forall>k. has_entry st1 k \<longrightarrow> has_entry st' k"
    by blast
  from Cons.prems(1,2) m run have "settles S p x tasks st st' (Inl e)"
    by (intro settles.progress [of i tasks rgn b "pre @ a # rest" st1]) simp_all
  moreover from step(4) keep have "has_entry st' (b @ ''-'' @ rgn)" by blast
  moreover from step(3) keep have "\<forall>k. has_entry st k \<longrightarrow> has_entry st' k" by blast
  ultimately show ?case using pre by auto
qed

lemma init_resourceParameters_effect:
  "has_entry st k \<Longrightarrow> has_entry (init_resourceParameters st) k"
  "import_enabled (this st) \<Longrightarrow> parameters_defined (init_resourceParameters st)"
  "import_enabled (this (init_resourceParameters st)) = import_enabled (this st)"
  "deployed_accounts (this (init_resourceParameters st)) = deployed_accounts (this st)"
  "GlobalConfig.enabledRegions (this (init_resourceParameters st)) = GlobalConfig.enabledRegions (this st)"
  by (auto simp add: init_resourceParameters_def modify_elz_def has_entry_def import_enabled_def
      parameters_defined_def deployed_accounts_def split: option.splits)

lemma loadLzaResources_unfold:
  assumes "import_enabled (this st)"
  shows "loadLzaResources S p x st st' outcome \<longleftrightarrow>
     settles S p x (map (\<lambda>rgn. (rgn, deployed_accounts (this st))) (GlobalConfig.enabledRegions (this st)))
       (init_resourceParameters st) st' outcome"
  using assms
  by (simp add: loadLzaResources_def loadRegionLzaResources_def Let_def
      init_resourceParameters_effect)

text \<open>
  C3, as stated, fails. With accounts \<^verbatim>\<open>111\<close> and \<^verbatim>\<open>222\<close> and one enabled region,
  the role of \<^verbatim>\<open>222\<close> cannot be assumed: the call rejects with that error, and
  \<^verbatim>\<open>resourceParameters\<close>, undefined before the call, is an object holding the entry
  of account \<^verbatim>\<open>111\<close> when it does.
\<close>

theorem failed_call_keeps_first_account:
  "loadLzaResources services0 ''aws'' ''ASEA'' state2 state2_rejected (Inl (Error ''Access Denied''))
   \<and> \<not> parameters_defined state2
   \<and> \<not> has_entry state2 ''111-us-east-1''
   \<and> parameters_defined state2_rejected
   \<and> has_entry state2_rejected ''111-us-east-1''"
proof -
  let ?ref = "init_resourceParameters state2"
  have imp: "import_enabled (this state2)" by code_simp
  have rgns: "GlobalConfig.enabledRegions (this state2) = [''us-east-1'']" by code_simp
  have accts: "deployed_accounts (this state2) = [''111'', ''222'']" by code_simp
  have role: "GlobalConfig.managementAccountAccessRole (this ?ref) = ''OrgAccessRole''"
    by code_simp
  have role': "GlobalConfig.managementAccountAccessRole (this state2_committed) = ''OrgAccessRole''"
    by code_simp
  have d: "parameters_defined ?ref" by code_simp
  from queries_fulfilled(2) obtain vs where
    vs: "all_values (ssmPromises services0 ''ASEA'' client0) = Some vs" by blast
  from pass_commits [of ?ref services0 "''111''" "''us-east-1''" "''aws''" credentials0 client0
      "''ASEA''" vs] d role role_assumed_111 client_of_credentials0 queries_fulfilled(1) vs
  have 1: "(state2_committed, Inr ())
             \<in> set (reconcile_account services0 ''us-east-1'' ''aws'' ''ASEA'' ''111'' ?ref)"
    by (simp add: state2_committed_def)
  from pass_throws [of services0 "''222''" "''us-east-1''" "''aws''" state2_committed
      "Error ''Access Denied''" "''ASEA''"] role' role_denied_222
  have 2: "(state2_rejected, Inl (Error ''Access Denied''))
             \<in> set (reconcile_account services0 ''us-east-1'' ''aws'' ''ASEA'' ''222''
                      state2_committed)"
    by (simp add: state2_rejected_def)
  have r: "settles services0 ''aws'' ''ASEA'' ([(''us-east-1'', [''111'', ''222''])][0 := (''us-east-1'', [''222''])])
          state2_committed state2_rejected (Inl (Error ''Access Denied''))"
    by (rule settles.rejected [of 0 _ "''us-east-1''" "''222''" "[]", OF _ _ 2]) simp_all
  have "settles services0 ''aws'' ''ASEA'' [(''us-east-1'', [''111'', ''222''])]
          ?ref state2_rejected (Inl (Error ''Access Denied''))"
    by (rule settles.progress [of 0 _ "''us-east-1''" "''111''" "[''222'']", OF _ _ 1 r]) simp_all
  with loadLzaResources_unfold [OF imp, of services0 "''aws''" "''ASEA''"] rgns accts
  have run: "loadLzaResources services0 ''aws'' ''ASEA'' state2 state2_rejected
               (Inl (Error ''Access Denied''))"
    by simp
  have "\<not> parameters_defined state2" "\<not> has_entry state2 ''111-us-east-1''"
    "parameters_defined state2_rejected" "has_entry state2_rejected ''111-us-east-1''"
    by code_simp+
  with run show ?thesis by simp
qed

text \<open>
  C3, amended. With import enabled, however the call settles: \<^verbatim>\<open>resourceParameters\<close>
  is an object afterwards and every key it had before the call is still there; the call
  is fulfilled only if in every enabled region the pass over every deployed account
  succeeds and none can throw, and then all their entries are there; and when the call rejects with \<open>e\<close>,
  then \<open>e\<close> is thrown by the pass over some account of some enabled region, and the
  entries of all accounts before it in that region are there: nothing is rolled back.
  Conversely, whenever in an enabled region the passes over the accounts before some
  account succeed and the pass over that account throws \<open>e\<close>, the call may reject with
  \<open>e\<close>, holding the entries of all the accounts before it.
\<close>

theorem loadLzaResources_fails_without_rollback:
  assumes "import_enabled (this st)"
  shows "(\<forall>st' outcome. loadLzaResources S p x st st' outcome \<longrightarrow>
            parameters_defined st'
            \<and> (\<forall>key. has_entry st key \<longrightarrow> has_entry st' key)
            \<and> (outcome = Inr () \<longrightarrow>
                 (\<forall>rgn\<in>set (GlobalConfig.enabledRegions (this st)).
                    \<forall>b\<in>set (deployed_accounts (this st)).
                      account_outcomes S rgn p x b (init_resourceParameters st) = [Inr ()]
                      \<and> has_entry st' (b @ ''-'' @ rgn)))
            \<and> (\<forall>e. outcome = Inl e \<longrightarrow>
                 (\<exists>rgn\<in>set (GlobalConfig.enabledRegions (this st)). \<exists>pre a rest.
                    deployed_accounts (this st) = pre @ a # rest
                    \<and> Inl e \<in> set (account_outcomes S rgn p x a (init_resourceParameters st))
                    \<and> (\<forall>b\<in>set pre. has_entry st' (b @ ''-'' @ rgn)))))
     \<and> (\<forall>rgn\<in>set (GlobalConfig.enabledRegions (this st)). \<forall>pre a rest e.
            deployed_accounts (this st) = pre @ a # rest
            \<and> (\<forall>b\<in>set pre.
                  Inr () \<in> set (account_outcomes S rgn p x b (init_resourceParameters st)))
            \<and> Inl e \<in> set (account_outcomes S rgn p x a (init_resourceParameters st)) \<longrightarrow>
            (\<exists>st'. loadLzaResources S p x st st' (Inl e)
                 \<and> (\<forall>b\<in>set pre. has_entry st' (b @ ''-'' @ rgn))))"
proof -
  let ?ref = "init_resourceParameters st"
  let ?accts = "deployed_accounts (this st)"
  let ?rgns = "GlobalConfig.enabledRegions (this st)"
  let ?tasks = "map (\<lambda>rgn. (rgn, ?accts)) ?rgns"
  note unfold = loadLzaResources_unfold [OF assms, of S p x]
  have d: "parameters_defined ?ref" by (rule init_resourceParameters_effect(2) [OF assms])
  have fsts: "map fst ?tasks = ?rgns" by (simp add: comp_def)
  have inv: "\<forall>t\<in>set ?tasks. \<exists>pre. ?accts = pre @ snd t
           \<and> (\<forall>b\<in>set pre. Inr () \<in> set (account_outcomes S (fst t) p x b ?ref)
                 \<and> has_entry ?ref (b @ ''-'' @ fst t))"
  proof
    fix t assume "t \<in> set ?tasks"
    then have "?accts = [] @ snd t" by auto
    then show "\<exists>pre. ?accts = pre @ snd t
           \<and> (\<forall>b\<in>set pre. Inr () \<in> set (account_outcomes S (fst t) p x b ?ref)
                 \<and> has_entry ?ref (b @ ''-'' @ fst t))"
      by (intro exI [of _ "[]"]) simp
  qed
  have first: "parameters_defined st'
            \<and> (\<forall>key. has_entry st key \<longrightarrow> has_entry st' key)
            \<and> (outcome = Inr () \<longrightarrow>
                 (\<forall>rgn\<in>set ?rgns. \<forall>b\<in>set ?accts.
                      Inr () \<in> set (account_outcomes S rgn p x b ?ref)
                      \<and> has_entry st' (b @ ''-'' @ rgn)))
            \<and> (\<forall>e. outcome = Inl e \<longrightarrow>
                 (\<exists>rgn\<in>set ?rgns. \<exists>pre a rest.
                    ?accts = pre @ a # rest
                    \<and> Inl e \<in> set (account_outcomes S rgn p x a ?ref)
                    \<and> (\<forall>b\<in>set pre. has_entry st' (b @ ''-'' @ rgn))))"
    if run: "loadLzaResources S p x st st' outcome" for st' outcome
  proof -
    from run unfold have "settles S p x ?tasks ?ref st' outcome" by simp
    from settles_sound [OF this d d refl inv, unfolded fsts]
    have s: "parameters_defined st' \<and> (\<forall>k. has_entry ?ref k \<longrightarrow> has_entry st' k)
     \<and> (outcome = Inr () \<longrightarrow>
          (\<forall>rgn\<in>set ?rgns. \<forall>b\<in>set ?accts.
             Inr () \<in> set (account_outcomes S rgn p x b ?ref) \<and> has_entry st' (b @ ''-'' @ rgn)))
     \<and> (\<forall>e. outcome = Inl e \<longrightarrow>
          (\<exists>rgn\<in>set ?rgns. \<exists>pre a rest. ?accts = pre @ a # rest
             \<and> Inl e \<in> set (account_outcomes S rgn p x a ?ref)
             \<and> (\<forall>b\<in>set pre. has_entry st' (b @ ''-'' @ rgn))))" .
    moreover have "\<forall>key. has_entry st key \<longrightarrow> has_entry st' key"
      using s init_resourceParameters_effect(1) [of st] by blast
    ultimately show ?thesis by blast
  qed
  have second: "\<exists>st'. loadLzaResources S p x st st' (Inl e)
                 \<and> (\<forall>b\<in>set pre. has_entry st' (b @ ''-'' @ rgn))"
    if rgn: "rgn \<in> set ?rgns" and split: "?accts = pre @ a # rest"
      and ok: "\<forall>b\<in>set pre. Inr () \<in> set (account_outcomes S rgn p x b ?ref)"
      and bad: "Inl e \<in> set (account_outcomes S rgn p x a ?ref)"
    for rgn pre a rest e
  proof -
    from rgn obtain i where i: "i < length ?rgns" "?rgns ! i = rgn"
      by (auto simp add: in_set_conv_nth)
    then have at: "i < length ?tasks" "?tasks ! i = (rgn, pre @ a # rest)"
      using split by simp_all
    from failing_run_exists [OF at d d refl ok bad] obtain st' where
      "settles S p x ?tasks ?ref st' (Inl e)" "\<forall>b\<in>set pre. has_entry st' (b @ ''-'' @ rgn)"
      by blast
    with unfold show ?thesis by blast
  qed
  show ?thesis
  proof (intro conjI allI impI ballI)
    fix st' outcome assume r: "loadLzaResources S p x st st' outcome"
    from first [OF r] show "parameters_defined st'" by blast
    from first [OF r] show "\<And>key. has_entry st key \<Longrightarrow> has_entry st' key" by blast
    show "account_outcomes S rgn p x b ?ref = [Inr ()]"
      if "outcome = Inr ()" "rgn \<in> set ?rgns" "b \<in> set ?accts" for rgn b
    proof (rule account_succeeds_only [OF d])
      from first [OF r] that show "Inr () \<in> set (account_outcomes S rgn p x b ?ref)" by blast
    qed
    from first [OF r] show "\<And>rgn b. outcome = Inr () \<Longrightarrow> rgn \<in> set ?rgns \<Longrightarrow> b \<in> set ?accts \<Longrightarrow>
        has_entry st' (b @ ''-'' @ rgn)" by blast
    from first [OF r] show "\<And>e. outcome = Inl e \<Longrightarrow> \<exists>rgn\<in>set ?rgns. \<exists>pre a rest.
                    ?accts = pre @ a # rest
                    \<and> Inl e \<in> set (account_outcomes S rgn p x a ?ref)
                    \<and> (\<forall>b\<in>set pre. has_entry st' (b @ ''-'' @ rgn))" by blast
  next
    fix rgn pre a rest e
    assume "rgn \<in> set ?rgns"
      and "?accts = pre @ a # rest
            \<and> (\<forall>b\<in>set pre. Inr () \<in> set (account_outcomes S rgn p x b ?ref))
            \<and> Inl e \<in> set (account_outcomes S rgn p x a ?ref)"
    then show "\<exists>st'. loadLzaResources S p x st st' (Inl e)
                 \<and> (\<forall>b\<in>set pre. has_entry st' (b @ ''-'' @ rgn))"
      using second by blast
  qed
qed

theorem loadLzaResources_fails_without_rollback_witness:
  "import_enabled (this state3)
   \<and> (\<exists>st'. loadLzaResources services0 ''aws'' ''ASEA'' state3 st' (Inl (Error ''Access Denied''))
         \<and> parameters_defined st'
         \<and> has_entry st' ''000-eu-west-1''
         \<and> has_entry st' ''111-us-east-1''
         \<and> has_entry st' ''112-us-east-1'')"
proof -
  let ?ref = "init_resourceParameters state3"
  have imp: "import_enabled (this state3)" by code_simp
  have rgn: "''us-east-1'' \<in> set (GlobalConfig.enabledRegions (this state3))" by code_simp
  have accts: "deployed_accounts (this state3) = [''111'', ''112''] @ ''222'' # []" by code_simp
  have ok: "\<forall>b\<in>set [''111'', ''112''].
              Inr () \<in> set (account_outcomes services0 ''us-east-1'' ''aws'' ''ASEA'' b ?ref)"
    by code_simp
  have bad: "Inl (Error ''Access Denied'')
               \<in> set (account_outcomes services0 ''us-east-1'' ''aws'' ''ASEA'' ''222'' ?ref)"
    by code_simp
  have had: "has_entry state3 ''000-eu-west-1''" by code_simp
  note inst = loadLzaResources_fails_without_rollback [OF imp, of services0 "''aws''" "''ASEA''"]
  from inst have "\<forall>rgn\<in>set (GlobalConfig.enabledRegions (this state3)). \<forall>pre a rest e.
        deployed_accounts (this state3) = pre @ a # rest
        \<and> (\<forall>b\<in>set pre. Inr () \<in> set (account_outcomes services0 rgn ''aws'' ''ASEA'' b ?ref))
        \<and> Inl e \<in> set (account_outcomes services0 rgn ''aws'' ''ASEA'' a ?ref) \<longrightarrow>
        (\<exists>st'. loadLzaResources services0 ''aws'' ''ASEA'' state3 st' (Inl e)
              \<and> (\<forall>b\<in>set pre. has_entry st' (b @ ''-'' @ rgn)))"
    by (rule conjunct2)
  note runs = bspec [OF this rgn, rule_format,
      of "[''111'', ''112'']" "''222''" "[]" "Error ''Access Denied''"]
  have "\<exists>st'. loadLzaResources services0 ''aws'' ''ASEA'' state3 st' (Inl (Error ''Access Denied''))
          \<and> (\<forall>b\<in>set [''111'', ''112'']. has_entry st' (b @ ''-'' @ ''us-east-1''))"
    by (rule runs) (intro conjI accts ok bad)
  then obtain st' where
    run: "loadLzaResources services0 ''aws'' ''ASEA'' state3 st' (Inl (Error ''Access Denied''))"
    and entries: "\<forall>b\<in>set [''111'', ''112'']. has_entry st' (b @ ''-'' @ ''us-east-1'')"
    by (elim exE conjE)
  note post = inst [THEN conjunct1, rule_format, OF run]
  from post have defined: "parameters_defined st'" by (rule conjunct1)
  from post have "\<forall>key. has_entry state3 key \<longrightarrow> has_entry st' key"
    by (elim conjE)
  from this [rule_format, OF had] have kept: "has_entry st' ''000-eu-west-1''" .
  from entries have "has_entry st' ''111-us-east-1''" "has_entry st' ''112-us-east-1''"
    by simp_all
  with imp run defined kept show ?thesis by (intro conjI exI [of _ st']) 
qed

end
